theory Spec2Isabelle
  imports Complex_Main "HOL-Library.AList" "HOL-Library.Sublist" "HOL-Library.Multiset"
begin

section \<open>Row values\<close>

text \<open>
  A row is an open mapping from field names to values of type \<open>unknown\<close>. The values
  the grid and the form look into are modelled by \<open>jsval\<close>: \<open>undefined\<close>, \<open>null\<close>,
  booleans, numbers, strings, arrays and \<open>File\<close> objects (the uploads of the edit form,
  named by their file name). Numbers are the integer-valued ones; fractions and \<open>NaN\<close> are
  outside the model. A string is the list of its code units, and the model has the code
  units below 256 (ASCII and the Latin-1 supplement, \<open>CHR 0xA0\<close> being the no-break
  space); strings with other characters are outside the model.
\<close>

datatype jsval =
    VUndefined
  | VNull
  | VBool bool
  | VNum int
  | VStr string
  | VArr "jsval list"
  | VFile string

text \<open>\<open>v === null || v === undefined\<close>.\<close>

fun nullish :: "jsval \<Rightarrow> bool" where
  "nullish VUndefined = True"
| "nullish VNull = True"
| "nullish _ = False"

text \<open>\<open>!v\<close>: the falsy values are \<open>undefined\<close>, \<open>null\<close>, \<open>false\<close>, \<open>0\<close> and \<open>""\<close>.\<close>

fun falsy :: "jsval \<Rightarrow> bool" where
  "falsy VUndefined = True"
| "falsy VNull = True"
| "falsy (VBool b) = (\<not> b)"
| "falsy (VNum n) = (n = 0)"
| "falsy (VStr s) = (s = [])"
| "falsy (VArr vs) = False"
| "falsy (VFile f) = False"

text \<open>Decimal rendering of a number, as a template literal or \<open>String(n)\<close> gives it.\<close>

definition digit_char :: "nat \<Rightarrow> char" where
  "digit_char d = ''0123456789'' ! d"

fun string_of_nat :: "nat \<Rightarrow> string" where
  "string_of_nat n =
     (if n < 10 then [digit_char n]
      else string_of_nat (n div 10) @ [digit_char (n mod 10)])"

declare string_of_nat.simps [simp del]

definition string_of_int :: "int \<Rightarrow> string" where
  "string_of_int i =
     (if i < 0 then CHR ''-'' # string_of_nat (nat (- i)) else string_of_nat (nat i))"

text \<open>\<open>parts.join(sep)\<close> on strings.\<close>

fun join :: "string \<Rightarrow> string list \<Rightarrow> string" where
  "join sep [] = []"
| "join sep [s] = s"
| "join sep (s # t # ss) = s @ sep @ join sep (t # ss)"

text \<open>
  \<open>String(v)\<close>, which is also \<open>v.toString()\<close> wherever the source calls it (always on a
  value that is neither \<open>null\<close> nor \<open>undefined\<close>). An array joins its elements with a
  comma, an element that is \<open>null\<close> or \<open>undefined\<close> giving the empty string.
\<close>

fun js_toString :: "jsval \<Rightarrow> string" where
  "js_toString VUndefined = ''undefined''"
| "js_toString VNull = ''null''"
| "js_toString (VBool b) = (if b then ''true'' else ''false'')"
| "js_toString (VNum n) = string_of_int n"
| "js_toString (VStr s) = s"
| "js_toString (VArr vs) =
     join '','' (map (\<lambda>v. if nullish v then [] else js_toString v) vs)"
| "js_toString (VFile f) = ''[object File]''"

text \<open>
  \<open>s.toLowerCase()\<close>: among the code units below 256 the capital letters are \<open>A\<close> to
  \<open>Z\<close> (65 to 90) and the accented capitals 192 to 222 without the multiplication
  sign 215; the small letter of each is 32 further.
\<close>

definition lower_char :: "char \<Rightarrow> char" where
  "lower_char c =
     (if (65::nat) \<le> of_char c \<and> (of_char c :: nat) \<le> 90
         \<or> (192::nat) \<le> of_char c \<and> (of_char c :: nat) \<le> 222 \<and> (of_char c :: nat) \<noteq> 215
      then char_of ((of_char c :: nat) + 32) else c)"

definition toLowerCase :: "string \<Rightarrow> string" where
  "toLowerCase s = map lower_char s"

text \<open>\<open>s.includes(t)\<close>: \<open>t\<close> occurs in \<open>s\<close> as a contiguous substring.\<close>

fun includes_str :: "string \<Rightarrow> string \<Rightarrow> bool" where
  "includes_str [] t = (t = [])"
| "includes_str (c # cs) t = (prefix t (c # cs) \<or> includes_str cs t)"

text \<open>
  \<open>s.trim()\<close>: leading and trailing white space and line terminators removed. Among the
  code units below 256 these are tab, line feed, vertical tab, form feed, carriage return,
  space and the no-break space (160).
\<close>

definition is_space :: "char \<Rightarrow> bool" where
  "is_space c = (of_char c \<in> {9, 10, 11, 12, 13, 32, 160 :: nat})"

definition trim :: "string \<Rightarrow> string" where
  "trim s = rev (dropWhile is_space (rev (dropWhile is_space s)))"

section \<open>Rows\<close>

text \<open>
  \<open>GenericDataItem\<close>: a string \<open>id\<close> (its declared type) and the other fields in insertion
  order. \<open>item_get item k\<close> is \<open>item[k]\<close>: a missing field reads as \<open>undefined\<close>.
\<close>

record GenericDataItem =
  item_id :: string
  item_fields :: "(string \<times> jsval) list"

definition item_get :: "GenericDataItem \<Rightarrow> string \<Rightarrow> jsval" where
  "item_get item k =
     (if k = ''id'' then VStr (item_id item)
      else case map_of (item_fields item) k of None \<Rightarrow> VUndefined | Some v \<Rightarrow> v)"

section \<open>Configuration\<close>

text \<open>
  \<open>TableConfig\<close>: every option may be left out (\<open>None\<close>). \<open>config\<close> is the object literal
  of the component: the defaults, then the caller's \<open>tableConfig\<close> spread over them, so that
  an option the caller gives replaces its default.
\<close>

record TableConfig =
  title_opt :: "string option"
  description_opt :: "string option"
  searchPlaceholder_opt :: "string option"
  itemsPerPage_opt :: "nat option"
  enableSearch_opt :: "bool option"
  enableFilters_opt :: "bool option"
  enablePagination_opt :: "bool option"
  enableSelection_opt :: "bool option"
  enableSorting_opt :: "bool option"
  stickyHeader_opt :: "bool option"
  striped_opt :: "bool option"
  bordered_opt :: "bool option"
  compact_opt :: "bool option"
  className_opt :: "string option"
  emptyMessage_opt :: "string option"
  loadingMessage_opt :: "string option"

record RequiredTableConfig =
  title :: string
  description :: string
  searchPlaceholder :: string
  itemsPerPage :: nat
  enableSearch :: bool
  enableFilters :: bool
  enablePagination :: bool
  enableSelection :: bool
  enableSorting :: bool
  stickyHeader :: bool
  striped :: bool
  bordered :: bool
  compact :: bool
  className :: string
  emptyMessage :: string
  loadingMessage :: string

text \<open>\<open>{ k: d, ...tableConfig }\<close> for one key.\<close>

definition spread :: "'a \<Rightarrow> 'a option \<Rightarrow> 'a" where
  "spread d given = (case given of None \<Rightarrow> d | Some v \<Rightarrow> v)"

definition config :: "TableConfig \<Rightarrow> RequiredTableConfig" where
  "config tableConfig =
     \<lparr> title = spread ''Data Table'' (title_opt tableConfig),
       description = spread '''' (description_opt tableConfig),
       searchPlaceholder = spread ''Search...'' (searchPlaceholder_opt tableConfig),
       itemsPerPage = spread 10 (itemsPerPage_opt tableConfig),
       enableSearch = spread True (enableSearch_opt tableConfig),
       enableFilters = spread True (enableFilters_opt tableConfig),
       enablePagination = spread True (enablePagination_opt tableConfig),
       enableSelection = spread False (enableSelection_opt tableConfig),
       enableSorting = spread True (enableSorting_opt tableConfig),
       stickyHeader = spread False (stickyHeader_opt tableConfig),
       striped = spread True (striped_opt tableConfig),
       bordered = spread False (bordered_opt tableConfig),
       compact = spread False (compact_opt tableConfig),
       className = spread '''' (className_opt tableConfig),
       emptyMessage = spread ''No data found'' (emptyMessage_opt tableConfig),
       loadingMessage = spread ''Loading...'' (loadingMessage_opt tableConfig) \<rparr>"

text \<open>The default parameter \<open>tableConfig = {}\<close>.\<close>

definition empty_tableConfig :: TableConfig where
  "empty_tableConfig =
     \<lparr> title_opt = None, description_opt = None, searchPlaceholder_opt = None,
       itemsPerPage_opt = None, enableSearch_opt = None, enableFilters_opt = None,
       enablePagination_opt = None, enableSelection_opt = None, enableSorting_opt = None,
       stickyHeader_opt = None, striped_opt = None, bordered_opt = None, compact_opt = None,
       className_opt = None, emptyMessage_opt = None, loadingMessage_opt = None \<rparr>"

section \<open>Pagination\<close>

text \<open>
  \<open>Math.ceil(a / b)\<close> for an integer \<open>a\<close> and a page size \<open>b\<close>. With \<open>b = 0\<close> the
  quotient is an infinity or \<open>NaN\<close>, not a number of pages: \<open>None\<close>.
\<close>

definition ceil_div :: "int \<Rightarrow> nat \<Rightarrow> int option" where
  "ceil_div a b = (if b = 0 then None else Some (- ((- a) div int b)))"

text \<open>
  \<open>xs.slice(start, fin)\<close>: a negative index counts from the end, and both indices are
  clamped to the array.
\<close>

definition js_slice :: "'a list \<Rightarrow> int \<Rightarrow> int \<Rightarrow> 'a list" where
  "js_slice xs start fin =
     (let n = int (length xs);
          k = (if start < 0 then max (n + start) 0 else min start n);
          f = (if fin < 0 then max (n + fin) 0 else min fin n)
      in take (nat (f - k)) (drop (nat k) xs))"

definition totalPages :: "RequiredTableConfig \<Rightarrow> 'a list \<Rightarrow> int option" where
  "totalPages cfg filteredData = ceil_div (int (length filteredData)) (itemsPerPage cfg)"

definition startIndex :: "RequiredTableConfig \<Rightarrow> int \<Rightarrow> int" where
  "startIndex cfg currentPage = (currentPage - 1) * int (itemsPerPage cfg)"

definition currentData :: "RequiredTableConfig \<Rightarrow> int \<Rightarrow> 'a list \<Rightarrow> 'a list" where
  "currentData cfg currentPage filteredData =
     (if enablePagination cfg
      then js_slice filteredData (startIndex cfg currentPage)
             (startIndex cfg currentPage + int (itemsPerPage cfg))
      else filteredData)"

section \<open>Host functions\<close>

text \<open>
  What the grid takes from its JavaScript host and the host's locale and time zone, as
  parameters: \<open>a.localeCompare(b)\<close>; \<open>Date.parse(s)\<close> (a time value in milliseconds,
  \<open>None\<close> for \<open>NaN\<close>); the local calendar day a time value falls on; the locale's
  renderings of dates and numbers; \<open>Number.parseFloat(s)\<close> and \<open>Number(s)\<close> on
  strings (\<open>None\<close> for \<open>NaN\<close>).
\<close>

record js_env =
  localeCompare :: "string \<Rightarrow> string \<Rightarrow> int"
  dateParse :: "string \<Rightarrow> int option"
  localDay :: "int \<Rightarrow> int"
  dateToLocaleDateString :: "int \<Rightarrow> string"
  dateToLocaleString :: "int \<Rightarrow> string"
  numberToLocaleString :: "int \<Rightarrow> string"
  parseFloat :: "string \<Rightarrow> int option"
  stringToNumber :: "string \<Rightarrow> int option"

text \<open>
  \<open>new Date(v)\<close>: the time value of the new object, \<open>None\<close> for an invalid date. The
  constructor never throws. \<open>undefined\<close> gives an invalid date, \<open>null\<close> and booleans
  convert to the numbers 0 and 1, a number is a time value when within the range of dates,
  and anything else is parsed from its string form.
\<close>

definition timeClip :: "int \<Rightarrow> int option" where
  "timeClip t = (if \<bar>t\<bar> \<le> 8640000000000000 then Some t else None)"

fun newDate :: "js_env \<Rightarrow> jsval \<Rightarrow> int option" where
  "newDate env VUndefined = None"
| "newDate env VNull = Some 0"
| "newDate env (VBool b) = Some (if b then 1 else 0)"
| "newDate env (VNum n) = timeClip n"
| "newDate env (VStr s) = dateParse env s"
| "newDate env (VArr vs) = dateParse env (js_toString (VArr vs))"
| "newDate env (VFile f) = dateParse env (js_toString (VFile f))"

text \<open>
  \<open>d.toDateString()\<close> is the fixed string \<open>Invalid Date\<close> for an invalid date (it does
  not throw), and otherwise names the weekday, month, day and year of the local calendar
  day of \<open>d\<close>, so that two such strings are equal exactly when both dates are invalid or
  both fall on the same local day. The string is kept as that information.
\<close>

datatype date_string = Invalid_Date | Day_of int

definition toDateString :: "js_env \<Rightarrow> int option \<Rightarrow> date_string" where
  "toDateString env d = (case d of None \<Rightarrow> Invalid_Date | Some t \<Rightarrow> Day_of (localDay env t))"

text \<open>\<open>Number(v)\<close>, \<open>None\<close> for \<open>NaN\<close>.\<close>

fun toNumber :: "js_env \<Rightarrow> jsval \<Rightarrow> int option" where
  "toNumber env VUndefined = None"
| "toNumber env VNull = Some 0"
| "toNumber env (VBool b) = Some (if b then 1 else 0)"
| "toNumber env (VNum n) = Some n"
| "toNumber env (VStr s) = stringToNumber env s"
| "toNumber env (VArr vs) = stringToNumber env (js_toString (VArr vs))"
| "toNumber env (VFile f) = stringToNumber env (js_toString (VFile f))"

section \<open>Columns, filters and the value formatter\<close>

text \<open>
  Of a \<open>ColumnConfig\<close> the grid's logic reads the key, the type and the two optional
  flags; of a \<open>FilterConfig\<close> the key, the type and \<open>multiple\<close>. Types are the strings
  the source switches on.
\<close>

record ColumnConfig =
  col_key :: string
  col_label :: string
  col_type :: string
  sortable :: "bool option"
  searchable :: "bool option"

record FilterConfig =
  filter_key :: string
  filter_label :: string
  filter_type :: string
  multiple :: bool

definition formatValue :: "js_env \<Rightarrow> jsval \<Rightarrow> ColumnConfig \<Rightarrow> string" where
  "formatValue env v column =
     (if nullish v then ''-''
      else if col_type column = ''currency'' then
        (case (case v of VStr s \<Rightarrow> parseFloat env (filter (\<lambda>c. c \<noteq> CHR ''$'' \<and> c \<noteq> CHR '','') s)
                       | VNum n \<Rightarrow> Some n
                       | _ \<Rightarrow> Some 0) of
           None \<Rightarrow> ''$0''
         | Some numValue \<Rightarrow> ''$'' @ numberToLocaleString env numValue)
      else if col_type column = ''percentage'' then
        string_of_int (case toNumber env v of None \<Rightarrow> 0 | Some percentValue \<Rightarrow> percentValue) @ ''%''
      else if col_type column = ''date'' then
        (case newDate env v of None \<Rightarrow> ''Invalid Date'' | Some t \<Rightarrow> dateToLocaleDateString env t)
      else if col_type column = ''datetime-local'' then
        (case newDate env v of None \<Rightarrow> ''Invalid Date'' | Some t \<Rightarrow> dateToLocaleString env t)
      else if col_type column = ''checkbox'' then
        (if falsy v then ''No'' else ''Yes'')
      else
        (case v of
           VArr vs \<Rightarrow> join '', '' (map (\<lambda>e. if falsy e then [] else js_toString e) vs)
         | _ \<Rightarrow> if falsy v then [] else js_toString v))"

section \<open>The grid's state\<close>

text \<open>
  The component's state hooks that the query pipeline, the selection and the delete flow
  read and write, and the log of the calls made to the parent's callbacks. \<open>activeFilters\<close>
  holds strings only: the two places that write it store the value of a select control and
  the value of a date input. A callback the parent did not pass is not called
  (\<open>onDataChange?.(...)\<close>); the props say which were passed.
\<close>

datatype direction = Asc | Desc

record sort_config =
  sort_key :: string
  sort_direction :: direction

record delete_confirm =
  dc_open :: bool
  itemId :: string
  itemName :: string

datatype callback =
    OnDataChange "GenericDataItem list"
  | OnItemDelete string
  | OnItemsSelect "string list"
  | OnItemEdit GenericDataItem

record table_props =
  columns :: "ColumnConfig list"
  filters :: "FilterConfig list"
  tableConfig :: TableConfig
  has_onDataChange :: bool
  has_onItemDelete :: bool
  has_onItemsSelect :: bool
  has_onItemEdit :: bool

record table_state =
  localData :: "GenericDataItem list"
  searchTerm :: string
  activeFilters :: "(string \<times> string) list"
  sortConfig :: "sort_config option"
  currentPage :: int
  selectedItems :: "string list"
  deleteConfirm :: delete_confirm
  calls :: "callback list"

section \<open>The query pipeline\<close>

text \<open>The search stage's predicate on one row.\<close>

definition matches_search :: "js_env \<Rightarrow> ColumnConfig list \<Rightarrow> string \<Rightarrow> GenericDataItem \<Rightarrow> bool" where
  "matches_search env cols term item =
     list_ex
       (\<lambda>column.
          let v = item_get item (col_key column)
          in if nullish v then False
             else includes_str (toLowerCase (formatValue env v column)) (toLowerCase term))
       (filter (\<lambda>col. searchable col \<noteq> Some False) cols)"

text \<open>
  The \<open>switch (filter.type)\<close> of the filter stage, on one row's value and a filter value
  (a string, so \<open>Array.isArray(filterValue)\<close> is false and \<open>dateRange.start\<close> is
  \<open>undefined\<close>). The \<open>catch\<close> of the date case is never entered: neither \<open>new Date\<close>
  nor \<open>toDateString\<close> throws.
\<close>

definition filterPredicate :: "js_env \<Rightarrow> FilterConfig \<Rightarrow> jsval \<Rightarrow> string \<Rightarrow> bool" where
  "filterPredicate env f itemValue filterValue =
     (if filter_type f = ''select'' then
        (case itemValue of
           VArr vs \<Rightarrow> VStr filterValue \<in> set vs
         | _ \<Rightarrow> itemValue = VStr filterValue)
      else if filter_type f = ''date'' then
        toDateString env (newDate env itemValue) = toDateString env (newDate env (VStr filterValue))
      else if filter_type f = ''daterange'' then True
      else if filter_type f = ''number'' then
        (case (toNumber env itemValue, toNumber env (VStr filterValue)) of
           (Some a, Some b) \<Rightarrow> a = b
         | _ \<Rightarrow> False)
      else if filter_type f = ''text'' then
        (if nullish itemValue then False
         else includes_str (toLowerCase (js_toString itemValue)) (toLowerCase filterValue))
      else True)"

text \<open>One round of \<open>Object.entries(activeFilters).forEach\<close>.\<close>

definition apply_filter ::
  "js_env \<Rightarrow> FilterConfig list \<Rightarrow> GenericDataItem list \<Rightarrow> string \<times> string \<Rightarrow> GenericDataItem list" where
  "apply_filter env fs filtered entry =
     (let filterKey = fst entry; filterValue = snd entry
      in if filterValue = [] \<or> filterValue = ''all'' then filtered
         else case find (\<lambda>f. filter_key f = filterKey) fs of
                None \<Rightarrow> filtered
              | Some f \<Rightarrow>
                  filter (\<lambda>item. filterPredicate env f (item_get item filterKey) filterValue) filtered)"

text \<open>The comparator handed to \<open>filtered.sort\<close>.\<close>

definition compare_rows :: "js_env \<Rightarrow> sort_config \<Rightarrow> GenericDataItem \<Rightarrow> GenericDataItem \<Rightarrow> int" where
  "compare_rows env sc a b =
     (let aValue = item_get a (sort_key sc); bValue = item_get b (sort_key sc)
      in if nullish aValue then 1
         else if nullish bValue then - 1
         else
           let comparison =
                 (case (aValue, bValue) of
                    (VNum x, VNum y) \<Rightarrow> x - y
                  | _ \<Rightarrow> localeCompare env (js_toString aValue) (js_toString bValue))
           in if sort_direction sc = Desc then - comparison else comparison)"

text \<open>
  \<open>Array.prototype.sort\<close> belongs to the engine. It is modelled as the stable insertion
  sort: the elements are taken from left to right, and each is placed before the first
  element already placed that it compares below (\<open>cmp x y < 0\<close>).
\<close>

fun place :: "('a \<Rightarrow> 'a \<Rightarrow> int) \<Rightarrow> 'a \<Rightarrow> 'a list \<Rightarrow> 'a list" where
  "place cmp x [] = [x]"
| "place cmp x (y # ys) = (if cmp x y < 0 then x # y # ys else y # place cmp x ys)"

definition array_sort :: "('a \<Rightarrow> 'a \<Rightarrow> int) \<Rightarrow> 'a list \<Rightarrow> 'a list" where
  "array_sort cmp xs = foldl (\<lambda>placed x. place cmp x placed) [] xs"

text \<open>
  Of the result of any other sorting algorithm one expects at least that no element is
  directly followed by one that the comparator orders before it. \<open>adjacent_ordered\<close>
  says that of a list.
\<close>

fun adjacent_ordered :: "('a \<Rightarrow> 'a \<Rightarrow> int) \<Rightarrow> 'a list \<Rightarrow> bool" where
  "adjacent_ordered cmp [] = True"
| "adjacent_ordered cmp [x] = True"
| "adjacent_ordered cmp (x # y # ys) = (\<not> cmp y x < 0 \<and> adjacent_ordered cmp (y # ys))"

text \<open>The memoised \<open>filteredData\<close>: search, then the filters, then the sort.\<close>

definition filteredData :: "js_env \<Rightarrow> table_props \<Rightarrow> table_state \<Rightarrow> GenericDataItem list" where
  "filteredData env p s =
     (let cfg = config (tableConfig p);
          searched =
            (if enableSearch cfg \<and> searchTerm s \<noteq> []
             then filter (matches_search env (columns p) (searchTerm s)) (localData s)
             else localData s);
          filtered =
            (if enableFilters cfg
             then foldl (apply_filter env (filters p)) searched (activeFilters s)
             else searched)
      in case sortConfig s of
           Some sc \<Rightarrow> if enableSorting cfg then array_sort (compare_rows env sc) filtered else filtered
         | None \<Rightarrow> filtered)"

text \<open>The rows of the current page, in a given state.\<close>

definition currentData_of :: "js_env \<Rightarrow> table_props \<Rightarrow> table_state \<Rightarrow> GenericDataItem list" where
  "currentData_of env p s =
     currentData (config (tableConfig p)) (currentPage s) (filteredData env p s)"

section \<open>Selection\<close>

text \<open>
  The effect on \<open>selectedItems\<close>: after a handler has stored a new selection, the render
  that follows reports it to \<open>onItemsSelect\<close>, when the parent passed one.
\<close>

definition selection_effect :: "table_props \<Rightarrow> string list \<Rightarrow> callback list" where
  "selection_effect p sel = (if has_onItemsSelect p then [OnItemsSelect sel] else [])"

definition handleSelectAll :: "js_env \<Rightarrow> table_props \<Rightarrow> bool \<Rightarrow> table_state \<Rightarrow> table_state" where
  "handleSelectAll env p checked s =
     (let sel = (if checked then map item_id (currentData_of env p s) else [])
      in s\<lparr>selectedItems := sel, calls := calls s @ selection_effect p sel\<rparr>)"

definition handleSelectItem :: "table_props \<Rightarrow> string \<Rightarrow> bool \<Rightarrow> table_state \<Rightarrow> table_state" where
  "handleSelectItem p i checked s =
     (let sel = (if checked then selectedItems s @ [i]
                 else filter (\<lambda>j. j \<noteq> i) (selectedItems s))
      in s\<lparr>selectedItems := sel, calls := calls s @ selection_effect p sel\<rparr>)"

section \<open>The delete flow\<close>

text \<open>
  \<open>handleDelete\<close> (the row's Delete button) and the Delete Selected button open the
  confirmation; the Cancel button and closing the dialog reset it; the dialog's Delete
  button runs \<open>confirmDelete\<close>.
\<close>

definition closed_confirm :: delete_confirm where
  "closed_confirm = \<lparr>dc_open = False, itemId = [], itemName = []\<rparr>"

definition handleDelete :: "GenericDataItem \<Rightarrow> table_state \<Rightarrow> table_state" where
  "handleDelete item s =
     s\<lparr>deleteConfirm :=
         \<lparr>dc_open = True,
          itemId = item_id item,
          itemName =
            (let n = item_get item ''name''
             in if nullish n \<or> js_toString n = [] then item_id item else js_toString n)\<rparr>\<rparr>"

definition requestBulkDelete :: "table_state \<Rightarrow> table_state" where
  "requestBulkDelete s =
     s\<lparr>deleteConfirm :=
         \<lparr>dc_open = True,
          itemId = ''bulk'',
          itemName = string_of_nat (length (selectedItems s)) @ '' selected items''\<rparr>\<rparr>"

definition cancelDelete :: "table_state \<Rightarrow> table_state" where
  "cancelDelete s = s\<lparr>deleteConfirm := closed_confirm\<rparr>"

text \<open>
  \<open>confirmDelete\<close> reads the state of the render it was created in (\<open>s\<close>) throughout:
  the page count is computed from \<open>localData\<close> and \<open>selectedItems\<close> as they were before
  the deletion. In the bulk branch the selection effect follows.
\<close>

definition confirmDelete :: "table_props \<Rightarrow> table_state \<Rightarrow> table_state" where
  "confirmDelete p s =
     (let pending = itemId (deleteConfirm s);
          s1 =
            (if pending = ''bulk'' then
               let updatedData =
                     filter (\<lambda>item. item_id item \<notin> set (selectedItems s)) (localData s)
               in s\<lparr>localData := updatedData,
                    calls := calls s
                      @ (if has_onDataChange p then [OnDataChange updatedData] else [])
                      @ (if has_onItemDelete p then map OnItemDelete (selectedItems s) else []),
                    selectedItems := []\<rparr>
             else
               let updatedData = filter (\<lambda>item. item_id item \<noteq> pending) (localData s)
               in s\<lparr>localData := updatedData,
                    calls := calls s
                      @ (if has_onDataChange p then [OnDataChange updatedData] else [])
                      @ (if has_onItemDelete p then [OnItemDelete pending] else [])\<rparr>);
          s2 = s1\<lparr>deleteConfirm := closed_confirm\<rparr>;
          newTotalPages =
            ceil_div
              (if pending = ''bulk''
               then int (length (filter (\<lambda>item. item_id item \<notin> set (selectedItems s)) (localData s)))
               else int (length (localData s)) - 1)
              (itemsPerPage (config (tableConfig p)));
          s3 =
            (case newTotalPages of
               Some n \<Rightarrow> if currentPage s > n \<and> n > 0 then s2\<lparr>currentPage := n\<rparr> else s2
             | None \<Rightarrow> s2)
      in if pending = ''bulk'' then s3\<lparr>calls := calls s3 @ selection_effect p []\<rparr> else s3)"

section \<open>The edit form\<close>

text \<open>
  Of a \<open>FormFieldConfig\<close> validation and rendering read the key, the label, \<open>required\<close>
  (absent counts as false), the validation rules and the visibility predicate \<open>showWhen\<close>.
  A custom rule returns an error message or nothing.
\<close>

record validation_rules =
  v_min :: "int option"
  v_max :: "int option"
  minLength :: "nat option"
  maxLength :: "nat option"
  pattern :: "string option"
  custom :: "(jsval \<Rightarrow> string option) option"

record FormFieldConfig =
  key :: string
  label :: string
  required :: bool
  validation :: "validation_rules option"
  showWhen :: "(GenericDataItem \<Rightarrow> bool) option"

text \<open>
  \<open>new RegExp(pattern).test(value)\<close> is the host's, a parameter \<open>regexTest\<close>:
  \<open>None\<close> when \<open>pattern\<close> is not a regular expression and the constructor throws a
  \<open>SyntaxError\<close>.
\<close>

datatype js_error = SyntaxError

type_synonym error_map = "(string \<times> string) list"

text \<open>The three checks on a string value, in the source's order.\<close>

definition string_checks ::
  "(string \<Rightarrow> string \<Rightarrow> bool option) \<Rightarrow> FormFieldConfig \<Rightarrow> validation_rules \<Rightarrow> string
     \<Rightarrow> error_map \<Rightarrow> js_error + error_map" where
  "string_checks regexTest cfg rules v newErrors =
     (let e1 =
            (case minLength rules of
               Some m \<Rightarrow>
                 if m \<noteq> 0 \<and> length v < m
                 then AList.update (key cfg)
                        (label cfg @ '' must be at least '' @ string_of_nat m @ '' characters'') newErrors
                 else newErrors
             | None \<Rightarrow> newErrors);
          e2 =
            (case maxLength rules of
               Some m \<Rightarrow>
                 if m \<noteq> 0 \<and> length v > m
                 then AList.update (key cfg)
                        (label cfg @ '' must be no more than '' @ string_of_nat m @ '' characters'') e1
                 else e1
             | None \<Rightarrow> e1)
      in case pattern rules of
           Some pat \<Rightarrow>
             if pat = [] then Inr e2
             else (case regexTest pat v of
                     None \<Rightarrow> Inl SyntaxError
                   | Some ok \<Rightarrow>
                       if ok then Inr e2
                       else Inr (AList.update (key cfg) (label cfg @ '' format is invalid'') e2))
         | None \<Rightarrow> Inr e2)"

text \<open>The two checks on a number value.\<close>

definition number_checks :: "FormFieldConfig \<Rightarrow> validation_rules \<Rightarrow> int \<Rightarrow> error_map \<Rightarrow> error_map" where
  "number_checks cfg rules v newErrors =
     (let e1 =
            (case v_min rules of
               Some m \<Rightarrow>
                 if v < m
                 then AList.update (key cfg) (label cfg @ '' must be at least '' @ string_of_int m) newErrors
                 else newErrors
             | None \<Rightarrow> newErrors)
      in case v_max rules of
           Some m \<Rightarrow>
             if v > m
             then AList.update (key cfg) (label cfg @ '' must be no more than '' @ string_of_int m) e1
             else e1
         | None \<Rightarrow> e1)"

text \<open>The custom rule.\<close>

definition custom_check :: "FormFieldConfig \<Rightarrow> validation_rules \<Rightarrow> jsval \<Rightarrow> error_map \<Rightarrow> error_map" where
  "custom_check cfg rules v newErrors =
     (case custom rules of
        Some f \<Rightarrow>
          (case f v of
             Some customError \<Rightarrow>
               if customError \<noteq> [] then AList.update (key cfg) customError newErrors else newErrors
           | None \<Rightarrow> newErrors)
      | None \<Rightarrow> newErrors)"

text \<open>
  The body of \<open>fieldConfigs.forEach\<close> in \<open>validateForm\<close>, for one field: the errors
  collected so far go in, and come out with this field's.
\<close>

definition validateField ::
  "(string \<Rightarrow> string \<Rightarrow> bool option) \<Rightarrow> GenericDataItem \<Rightarrow> FormFieldConfig
     \<Rightarrow> error_map \<Rightarrow> js_error + error_map" where
  "validateField regexTest formData cfg newErrors =
     (let v = item_get formData (key cfg)
      in if required cfg \<and> (falsy v \<or> (case v of VStr s \<Rightarrow> trim s = [] | _ \<Rightarrow> False))
         then Inr (AList.update (key cfg) (label cfg @ '' is required'') newErrors)
         else if falsy v then Inr newErrors
         else case validation cfg of
                None \<Rightarrow> Inr newErrors
              | Some rules \<Rightarrow>
                  (case (case v of
                           VStr str \<Rightarrow> string_checks regexTest cfg rules str newErrors
                         | _ \<Rightarrow> Inr newErrors) of
                     Inl err \<Rightarrow> Inl err
                   | Inr e1 \<Rightarrow>
                       Inr (custom_check cfg rules v
                              (case v of VNum n \<Rightarrow> number_checks cfg rules n e1 | _ \<Rightarrow> e1))))"

fun validate_fields ::
  "(string \<Rightarrow> string \<Rightarrow> bool option) \<Rightarrow> GenericDataItem \<Rightarrow> FormFieldConfig list
     \<Rightarrow> error_map \<Rightarrow> js_error + error_map" where
  "validate_fields regexTest formData [] newErrors = Inr newErrors"
| "validate_fields regexTest formData (cfg # cfgs) newErrors =
     (case validateField regexTest formData cfg newErrors of
        Inl err \<Rightarrow> Inl err
      | Inr e \<Rightarrow> validate_fields regexTest formData cfgs e)"

text \<open>
  The modal's state: the record being edited, the error mapping, the uploaded files by field
  key (files by name), and the log of the calls to \<open>onSave\<close>.
\<close>

record modal_state =
  formData :: "GenericDataItem option"
  errors :: error_map
  uploadedFiles :: "(string \<times> string list) list"
  onSave_calls :: "GenericDataItem list"

text \<open>
  \<open>validateForm\<close>: without a record it returns false and leaves the errors; otherwise it
  stores the new error mapping and returns whether it is empty. A \<open>SyntaxError\<close> leaves
  the function before \<open>setErrors\<close>.
\<close>

definition validateForm ::
  "(string \<Rightarrow> string \<Rightarrow> bool option) \<Rightarrow> FormFieldConfig list \<Rightarrow> modal_state
     \<Rightarrow> js_error + (bool \<times> modal_state)" where
  "validateForm regexTest fieldConfigs m =
     (case formData m of
        None \<Rightarrow> Inr (False, m)
      | Some fd \<Rightarrow>
          (case validate_fields regexTest fd fieldConfigs [] of
             Inl err \<Rightarrow> Inl err
           | Inr newErrors \<Rightarrow> Inr (newErrors = [], m\<lparr>errors := newErrors\<rparr>)))"

text \<open>
  \<open>finalData[k] = v\<close>. The id of a record is a string by its type; a file list stored
  under \<open>id\<close> is outside the model.
\<close>

definition item_set :: "GenericDataItem \<Rightarrow> string \<Rightarrow> jsval \<Rightarrow> GenericDataItem" where
  "item_set item k v =
     (if k = ''id'' then (case v of VStr s \<Rightarrow> item\<lparr>item_id := s\<rparr> | _ \<Rightarrow> item)
      else item\<lparr>item_fields := AList.update k v (item_fields item)\<rparr>)"

definition add_uploads :: "(string \<times> string list) list \<Rightarrow> GenericDataItem \<Rightarrow> GenericDataItem" where
  "add_uploads files item =
     foldl (\<lambda>finalData entry.
              if snd entry \<noteq> [] then item_set finalData (fst entry) (VArr (map VFile (snd entry)))
              else finalData)
       item files"

definition handleSave ::
  "(string \<Rightarrow> string \<Rightarrow> bool option) \<Rightarrow> FormFieldConfig list \<Rightarrow> modal_state
     \<Rightarrow> js_error + modal_state" where
  "handleSave regexTest fieldConfigs m =
     (case formData m of
        None \<Rightarrow> Inr m
      | Some fd \<Rightarrow>
          (case validateForm regexTest fieldConfigs m of
             Inl err \<Rightarrow> Inl err
           | Inr (ok, m') \<Rightarrow>
               if ok then Inr (m'\<lparr>onSave_calls := onSave_calls m' @ [add_uploads (uploadedFiles m') fd]\<rparr>)
               else Inr m'))"

text \<open>\<open>renderFormField\<close> renders the field unless \<open>showWhen\<close> is given and false.\<close>

definition field_rendered :: "FormFieldConfig \<Rightarrow> GenericDataItem \<Rightarrow> bool" where
  "field_rendered cfg fd = (case showWhen cfg of None \<Rightarrow> True | Some visible \<Rightarrow> visible fd)"

section \<open>A sample host\<close>

text \<open>
  A host to evaluate the definitions at concrete inputs: its time zone is UTC, it compares
  strings by their code units, it renders numbers in plain decimal and dates by their time value,
  it reads numbers written in decimal digits, and \<open>Date.parse\<close> is given for the date
  strings the examples use (every other string there is not a date).
\<close>

fun compare_bytes :: "string \<Rightarrow> string \<Rightarrow> int" where
  "compare_bytes [] [] = 0"
| "compare_bytes [] (d # ds) = - 1"
| "compare_bytes (c # cs) [] = 1"
| "compare_bytes (c # cs) (d # ds) =
     (if (of_char c :: nat) < of_char d then - 1
      else if (of_char d :: nat) < of_char c then 1
      else compare_bytes cs ds)"

definition is_digit :: "char \<Rightarrow> bool" where
  "is_digit c = ((48::nat) \<le> of_char c \<and> (of_char c :: nat) \<le> 57)"

definition read_decimal :: "string \<Rightarrow> int option" where
  "read_decimal s =
     (if s \<noteq> [] \<and> list_all is_digit s
      then Some (foldl (\<lambda>n c. 10 * n + (int (of_char c) - 48)) 0 s)
      else None)"

definition sample_dates :: "string \<Rightarrow> int option" where
  "sample_dates s =
     (if s = ''2024-01-15'' then Some 1705276800000
      else if s = ''2024-01-15T10:30:00Z'' then Some 1705314600000
      else if s = ''2024-01-16'' then Some 1705363200000
      else None)"

definition sample_host :: js_env where
  "sample_host =
     \<lparr> localeCompare = compare_bytes,
       dateParse = sample_dates,
       localDay = (\<lambda>t. t div 86400000),
       dateToLocaleDateString = string_of_int,
       dateToLocaleString = string_of_int,
       numberToLocaleString = string_of_int,
       parseFloat = read_decimal,
       stringToNumber = read_decimal \<rparr>"

section \<open>The grid as a state machine\<close>

text \<open>
  The state after the first render for the rows the parent passes: the initial values of
  the state hooks. The log of calls starts there, empty.
\<close>

definition initial_state :: "GenericDataItem list \<Rightarrow> table_state" where
  "initial_state data =
     \<lparr> localData = data, searchTerm = [], activeFilters = [], sortConfig = None,
       currentPage = 1, selectedItems = [], deleteConfirm = closed_confirm, calls = [] \<rparr>"

text \<open>
  The setters behind the search box, the filter controls, the Clear Filters and Clear
  Selection buttons, and the effect that copies a new \<open>data\<close> prop into the rows.
\<close>

definition setSearchTerm :: "string \<Rightarrow> table_state \<Rightarrow> table_state" where
  "setSearchTerm t s = s\<lparr>searchTerm := t\<rparr>"

definition setActiveFilter :: "string \<Rightarrow> string \<Rightarrow> table_state \<Rightarrow> table_state" where
  "setActiveFilter k v s = s\<lparr>activeFilters := AList.update k v (activeFilters s)\<rparr>"

definition clearFilters :: "table_state \<Rightarrow> table_state" where
  "clearFilters s = s\<lparr>activeFilters := []\<rparr>"

definition clearSelection :: "table_props \<Rightarrow> table_state \<Rightarrow> table_state" where
  "clearSelection p s = s\<lparr>selectedItems := [], calls := calls s @ selection_effect p []\<rparr>"

definition reseed :: "GenericDataItem list \<Rightarrow> table_state \<Rightarrow> table_state" where
  "reseed data s = s\<lparr>localData := data\<rparr>"

text \<open>\<open>handleModalSave\<close>: the edit form hands back a validated record, which replaces the row of its id.\<close>

definition handleModalSave :: "table_props \<Rightarrow> GenericDataItem \<Rightarrow> table_state \<Rightarrow> table_state" where
  "handleModalSave p updatedItem s =
     (let updatedData =
            map (\<lambda>item. if item_id item = item_id updatedItem then updatedItem else item)
              (localData s)
      in s\<lparr>localData := updatedData,
           calls := calls s
             @ (if has_onDataChange p then [OnDataChange updatedData] else [])
             @ (if has_onItemEdit p then [OnItemEdit updatedItem] else [])\<rparr>)"

text \<open>
  The page links. \<open>generatePageNumbers\<close> lists what the pagination bar shows for a page
  count and a current page: page numbers and ellipses.
\<close>

datatype page_item = PageNumber int | Ellipsis

definition generatePageNumbers :: "int \<Rightarrow> int \<Rightarrow> page_item list" where
  "generatePageNumbers pages current =
     (if pages \<le> 5 then map PageNumber [1..pages]
      else if current \<le> 3 then map PageNumber [1..4] @ [Ellipsis, PageNumber pages]
      else if current \<ge> pages - 2
        then [PageNumber 1, Ellipsis] @ map PageNumber [pages - 3..pages]
      else [PageNumber 1, Ellipsis] @ map PageNumber [current - 1..current + 1]
             @ [Ellipsis, PageNumber pages])"

definition setCurrentPage :: "int \<Rightarrow> table_state \<Rightarrow> table_state" where
  "setCurrentPage n s = s\<lparr>currentPage := n\<rparr>"

text \<open>
  The pagination bar is rendered when pagination is enabled and there is more than one page.
  Its Previous and Next buttons and its page links set the page index; a click on a page
  number that the bar does not show cannot happen. (With a page size of 0 the page count is
  not a number; the bar is then outside the model.)
\<close>

datatype page_event = Previous | Next | Page int

definition page_step :: "js_env \<Rightarrow> table_props \<Rightarrow> page_event \<Rightarrow> table_state \<Rightarrow> table_state" where
  "page_step env p e s =
     (case totalPages (config (tableConfig p)) (filteredData env p s) of
        None \<Rightarrow> s
      | Some pages \<Rightarrow>
          if enablePagination (config (tableConfig p)) \<and> pages > 1 then
            (case e of
               Previous \<Rightarrow> setCurrentPage (max 1 (currentPage s - 1)) s
             | Next \<Rightarrow> setCurrentPage (min pages (currentPage s + 1)) s
             | Page pageNum \<Rightarrow>
                 if PageNumber pageNum \<in> set (generatePageNumbers pages (currentPage s))
                 then setCurrentPage pageNum s
                 else s)
          else s)"

text \<open>The user's four actions in the delete flow.\<close>

datatype delete_event =
    RequestDelete GenericDataItem
  | RequestBulkDelete
  | Cancel
  | Confirm

fun delete_step :: "table_props \<Rightarrow> delete_event \<Rightarrow> table_state \<Rightarrow> table_state" where
  "delete_step p (RequestDelete item) s = handleDelete item s"
| "delete_step p RequestBulkDelete s = requestBulkDelete s"
| "delete_step p Cancel s = cancelDelete s"
| "delete_step p Confirm s = confirmDelete p s"

text \<open>
  \<open>handleSort\<close>, the click on a column header: nothing for a column that is not marked
  sortable; otherwise ascending, then descending, then no sort.
\<close>

definition handleSort :: "table_props \<Rightarrow> string \<Rightarrow> table_state \<Rightarrow> table_state" where
  "handleSort p columnKey s =
     (case find (\<lambda>col. col_key col = columnKey) (columns p) of
        None \<Rightarrow> s
      | Some column \<Rightarrow>
          if sortable column \<noteq> Some True then s
          else s\<lparr>sortConfig :=
                 (case sortConfig s of
                    Some current \<Rightarrow>
                      if sort_key current = columnKey
                      then (if sort_direction current = Asc
                            then Some \<lparr>sort_key = columnKey, sort_direction = Desc\<rparr>
                            else None)
                      else Some \<lparr>sort_key = columnKey, sort_direction = Asc\<rparr>
                  | None \<Rightarrow> Some \<lparr>sort_key = columnKey, sort_direction = Asc\<rparr>)\<rparr>)"

text \<open>Everything that changes the grid's state, and a session: events in sequence from the first render.\<close>

datatype grid_event =
    Search string
  | Filter string string
  | ClearFilters
  | Sort string
  | SelectAll bool
  | SelectItem string bool
  | ClearSelection
  | Delete delete_event
  | Paging page_event
  | Save GenericDataItem
  | Reseed "GenericDataItem list"

fun grid_step :: "js_env \<Rightarrow> table_props \<Rightarrow> grid_event \<Rightarrow> table_state \<Rightarrow> table_state" where
  "grid_step env p (Search t) s = setSearchTerm t s"
| "grid_step env p (Filter k v) s = setActiveFilter k v s"
| "grid_step env p ClearFilters s = clearFilters s"
| "grid_step env p (Sort k) s = handleSort p k s"
| "grid_step env p (SelectAll checked) s = handleSelectAll env p checked s"
| "grid_step env p (SelectItem i checked) s = handleSelectItem p i checked s"
| "grid_step env p ClearSelection s = clearSelection p s"
| "grid_step env p (Delete e) s = delete_step p e s"
| "grid_step env p (Paging e) s = page_step env p e s"
| "grid_step env p (Save item) s = handleModalSave p item s"
| "grid_step env p (Reseed data) s = reseed data s"

definition session :: "js_env \<Rightarrow> table_props \<Rightarrow> GenericDataItem list \<Rightarrow> grid_event list \<Rightarrow> table_state" where
  "session env p data events = foldl (\<lambda>s e. grid_step env p e s) (initial_state data) events"

section \<open>Sample inputs\<close>

text \<open>
  A grid of one searchable text column \<open>name\<close>, one row a page, with selection
  enabled and every callback passed; and rows that have a name only.
\<close>

definition name_column :: ColumnConfig where
  "name_column =
     \<lparr>col_key = ''name'', col_label = ''Name'', col_type = ''text'', sortable = Some True,
      searchable = None\<rparr>"

definition one_per_page :: table_props where
  "one_per_page =
     \<lparr> columns = [name_column], filters = [],
       tableConfig = empty_tableConfig\<lparr>itemsPerPage_opt := Some 1, enableSelection_opt := Some True\<rparr>,
       has_onDataChange = True, has_onItemDelete = True, has_onItemsSelect = True,
       has_onItemEdit = True \<rparr>"

definition named_row :: "string \<Rightarrow> string \<Rightarrow> GenericDataItem" where
  "named_row i n = \<lparr>item_id = i, item_fields = [(''name'', VStr n)]\<rparr>"

text \<open>
  Sessions on that grid, each ending with the confirmation dialog open.

  In \<open>second_row_selected\<close>, of two rows the second is selected on page 2, and the
  selection is to be deleted.

  In \<open>stale_selection\<close>, of three rows the first is selected and then deleted on its own
  (its id stays in the selection); then the second is selected and the selection is to be
  deleted.

  In \<open>all_selected_on_page_two\<close>, of two rows the first is selected on page 1, the second
  on page 2, and the selection is to be deleted.

  In \<open>searched_on_page_two\<close>, of three rows the search for \<open>a\<close> keeps the first and
  the third; on page 2, which shows the third, that row is to be deleted.
\<close>

definition second_row_selected :: table_state where
  "second_row_selected =
     session sample_host one_per_page [named_row ''1'' ''Ann'', named_row ''2'' ''Bob'']
       [Paging Next, SelectItem ''2'' True, Delete RequestBulkDelete]"

definition stale_selection :: table_state where
  "stale_selection =
     session sample_host one_per_page
       [named_row ''1'' ''Ann'', named_row ''2'' ''Bob'', named_row ''3'' ''Cy'']
       [SelectItem ''1'' True, Delete (RequestDelete (named_row ''1'' ''Ann'')), Delete Confirm,
        SelectItem ''2'' True, Delete RequestBulkDelete]"

definition all_selected_on_page_two :: table_state where
  "all_selected_on_page_two =
     session sample_host one_per_page [named_row ''1'' ''Ann'', named_row ''2'' ''Bob'']
       [SelectItem ''1'' True, Paging Next, SelectItem ''2'' True, Delete RequestBulkDelete]"

definition searched_on_page_two :: table_state where
  "searched_on_page_two =
     session sample_host one_per_page
       [named_row ''1'' ''Ann'', named_row ''2'' ''Bob'', named_row ''3'' ''Amy'']
       [Search ''a'', Paging (Page 2), Delete (RequestDelete (named_row ''3'' ''Amy''))]"

text \<open>A grid with a sortable column \<open>score\<close>, and three rows whose scores are \<open>null\<close>, 10 and 5.\<close>

definition score_grid :: table_props where
  "score_grid =
     \<lparr> columns = [\<lparr>col_key = ''score'', col_label = ''Score'', col_type = ''number'',
                    sortable = Some True, searchable = None\<rparr>],
       filters = [], tableConfig = empty_tableConfig,
       has_onDataChange = False, has_onItemDelete = False, has_onItemsSelect = False,
       has_onItemEdit = False \<rparr>"

definition score_rows :: "GenericDataItem list" where
  "score_rows =
     [\<lparr>item_id = ''a'', item_fields = [(''score'', VNull)]\<rparr>,
      \<lparr>item_id = ''b'', item_fields = [(''score'', VNum 10)]\<rparr>,
      \<lparr>item_id = ''c'', item_fields = [(''score'', VNum 5)]\<rparr>]"

text \<open>
  The modal's state once the effect on \<open>item\<close> has run for a record: a copy of the
  record, no errors, no uploads.
\<close>

definition open_modal :: "GenericDataItem \<Rightarrow> modal_state" where
  "open_modal item = \<lparr>formData = Some item, errors = [], uploadedFiles = [], onSave_calls = []\<rparr>"









definition spouse_field :: FormFieldConfig where
  "spouse_field =
     \<lparr>key = ''spouse'', label = ''Spouse'', required = True, validation = None,
      showWhen = Some (\<lambda>r. item_get r ''married'' = VBool True)\<rparr>"

definition unmarried :: GenericDataItem where
  "unmarried = \<lparr>item_id = ''7'', item_fields = [(''name'', VStr ''Ann''), (''married'', VBool False)]\<rparr>"

text \<open>A date filter on the field \<open>joined\<close>, and a row whose \<open>joined\<close> is not a date.\<close>

definition joined_filter :: FilterConfig where
  "joined_filter =
     \<lparr>filter_key = ''joined'', filter_label = ''Joined'', filter_type = ''date'', multiple = False\<rparr>"

definition joined_row :: "string \<Rightarrow> jsval \<Rightarrow> GenericDataItem" where
  "joined_row i v = \<lparr>item_id = i, item_fields = [(''joined'', v)]\<rparr>"

section \<open>Properties\<close>

subsection \<open>Pagination\<close>

lemma js_slice_nonneg:
  "0 \<le> a \<Longrightarrow> a \<le> b \<Longrightarrow> js_slice xs a b = take (nat (b - a)) (drop (nat a) xs)"
  unfolding js_slice_def Let_def
  by (cases "a \<le> int (length xs)"; cases "b \<le> int (length xs)") (auto simp: min_def)

lemma currentData_page:
  "enablePagination cfg \<Longrightarrow>
   currentData cfg (int (Suc k)) xs = take (itemsPerPage cfg) (drop (k * itemsPerPage cfg) xs)"
  by (simp add: currentData_def startIndex_def js_slice_nonneg nat_mult_distrib)

lemma first_pages:
  "enablePagination cfg \<Longrightarrow>
   concat (map (\<lambda>k. currentData cfg (int (Suc k)) xs) [0..<n]) = take (n * itemsPerPage cfg) xs"
proof (induction n)
  case 0
  show ?case by simp
next
  case (Suc n)
  have "take (n * itemsPerPage cfg) xs @ take (itemsPerPage cfg) (drop (n * itemsPerPage cfg) xs)
        = take (n * itemsPerPage cfg + itemsPerPage cfg) xs"
    by (simp add: take_add)
  moreover have "currentData cfg (int (Suc n)) xs
      = take (itemsPerPage cfg) (drop (n * itemsPerPage cfg) xs)"
    using Suc.prems by (rule currentData_page)
  ultimately show ?case
    using Suc by (simp del: of_nat_Suc add: add.commute)
qed

lemma ceil_covers:
  assumes "0 < b"
  shows "int n \<le> (- ((- int n) div int b)) * int b"
proof -
  define q where "q = (- int n) div int b"
  define r where "r = (- int n) mod int b"
  have e: "q * int b + r = - int n"
    unfolding q_def r_def by (rule div_mult_mod_eq)
  have m: "0 \<le> r"
    unfolding r_def using assms by simp
  have "int n \<le> - (q * int b)"
    using e m by linarith
  then show ?thesis
    unfolding q_def by simp
qed

lemma ceil_nonneg:
  assumes "0 < b"
  shows "0 \<le> - ((- int n) div int b)"
proof -
  have "(- int n) div int b \<le> 0 div int b"
    using assms by (intro zdiv_mono1) auto
  then show ?thesis by simp
qed

lemma upto_as_map: "[1..int n] = map (\<lambda>k. int (Suc k)) [0..<n]"
proof (induction n)
  case 0
  show ?case by simp
next
  case (Suc n)
  have "[1..int (Suc n)] = [1..int n] @ [int (Suc n)]"
    using upto_rec2[of 1 "int (Suc n)"] by simp
  with Suc show ?case by simp
qed

lemma ceil_div_is_ceiling:
  "0 < b \<Longrightarrow> ceil_div a b = Some \<lceil>real_of_int a / real b\<rceil>"
  using ceiling_divide_eq_div[of a "int b", where ?'a = real]
  by (simp add: ceil_div_def)

lemma totalPages_is_ceiling:
  "0 < itemsPerPage cfg \<Longrightarrow>
   totalPages cfg xs = Some \<lceil>real (length xs) / real (itemsPerPage cfg)\<rceil>"
  by (simp add: totalPages_def ceil_div_is_ceiling)

lemma pages_cover:
  assumes "enablePagination cfg" and "0 < itemsPerPage cfg"
  shows "\<exists>t. totalPages cfg xs = Some t
           \<and> concat (map (\<lambda>page. currentData cfg page xs) [1..t]) = xs"
proof -
  define t where "t = - ((- int (length xs)) div int (itemsPerPage cfg))"
  have tp: "totalPages cfg xs = Some t"
    using assms(2) by (simp add: totalPages_def ceil_div_def t_def)
  have nonneg: "0 \<le> t"
    unfolding t_def using assms(2) by (rule ceil_nonneg)
  then obtain n where n: "t = int n"
    using nonneg_int_cases by blast
  have "int (length xs) \<le> t * int (itemsPerPage cfg)"
    unfolding t_def using assms(2) by (rule ceil_covers)
  then have "int (length xs) \<le> int n * int (itemsPerPage cfg)"
    by (simp only: n)
  then have enough: "length xs \<le> n * itemsPerPage cfg"
    by (metis of_nat_le_iff of_nat_mult)
  have "concat (map (\<lambda>page. currentData cfg page xs) [1..t])
        = concat (map (\<lambda>k. currentData cfg (int (Suc k)) xs) [0..<n])"
    by (simp add: n upto_as_map comp_def)
  also have "\<dots> = take (n * itemsPerPage cfg) xs"
    using assms(1) by (rule first_pages)
  also have "\<dots> = xs"
    using enough by simp
  finally show ?thesis
    using tp by blast
qed

text \<open>
  C6. With pagination enabled and a positive page size, the number of pages of a filtered
  sequence \<open>xs\<close> is \<open>ceil (length xs / itemsPerPage)\<close>, and the page slices for the page
  indices 1 up to that number, one after the other, are \<open>xs\<close> itself: every row occurs
  once, in order, none is left out.
\<close>

theorem pagination_coverage:
  assumes "enablePagination cfg" and "0 < itemsPerPage cfg"
  shows "totalPages cfg xs = Some \<lceil>real (length xs) / real (itemsPerPage cfg)\<rceil>
         \<and> concat (map (\<lambda>page. currentData cfg page xs)
                      [1..\<lceil>real (length xs) / real (itemsPerPage cfg)\<rceil>]) = xs"
proof -
  have tp: "totalPages cfg xs = Some \<lceil>real (length xs) / real (itemsPerPage cfg)\<rceil>"
    using assms(2) by (rule totalPages_is_ceiling)
  with pages_cover[OF assms, of xs] show ?thesis
    by auto
qed

theorem pagination_coverage_witness:
  "enablePagination (config (empty_tableConfig\<lparr>itemsPerPage_opt := Some 2\<rparr>))
   \<and> 0 < itemsPerPage (config (empty_tableConfig\<lparr>itemsPerPage_opt := Some 2\<rparr>))
   \<and> totalPages (config (empty_tableConfig\<lparr>itemsPerPage_opt := Some 2\<rparr>)) ''abcde'' = Some 3
   \<and> concat (map (\<lambda>page. currentData (config (empty_tableConfig\<lparr>itemsPerPage_opt := Some 2\<rparr>)) page ''abcde'')
               [1..3]) = ''abcde''"
proof -
  let ?cfg = "config (empty_tableConfig\<lparr>itemsPerPage_opt := Some 2\<rparr>)"
  have h1: "enablePagination ?cfg"
    by (simp add: config_def empty_tableConfig_def spread_def)
  have h2: "0 < itemsPerPage ?cfg"
    by (simp add: config_def empty_tableConfig_def spread_def)
  have tp: "totalPages ?cfg ''abcde'' = Some 3"
    by (simp add: totalPages_def ceil_div_def config_def empty_tableConfig_def spread_def)
  note t = pagination_coverage[OF h1 h2, of "''abcde''"]
  have "Some \<lceil>real (length ''abcde'') / real (itemsPerPage ?cfg)\<rceil> = Some 3"
    using t[THEN conjunct1] tp by (rule trans[OF sym])
  then have c: "\<lceil>real (length ''abcde'') / real (itemsPerPage ?cfg)\<rceil> = 3"
    by (simp only: option.inject)
  have "concat (map (\<lambda>page. currentData ?cfg page ''abcde'')
          [1..\<lceil>real (length ''abcde'') / real (itemsPerPage ?cfg)\<rceil>]) = ''abcde''"
    by (rule t[THEN conjunct2])
  then have "concat (map (\<lambda>page. currentData ?cfg page ''abcde'') [1..3]) = ''abcde''"
    by (simp only: c)
  with h1 h2 tp show ?thesis by blast
qed

subsection \<open>Configuration\<close>

text \<open>
  C8, as the source has it. Applied to the empty configuration, \<open>config\<close> resolves to:
  search, filters, pagination and sorting enabled, ten rows a page, selection disabled, no
  sticky header, a striped layout that is neither bordered nor compact, and the fixed title,
  placeholder and messages. An option the caller gives replaces its default, whatever the
  rest of the configuration is. \<open>config\<close> is total: it cannot fail.
\<close>

theorem config_defaults_and_overrides:
  "config empty_tableConfig =
     \<lparr> title = ''Data Table'', description = '''', searchPlaceholder = ''Search...'',
       itemsPerPage = 10, enableSearch = True, enableFilters = True, enablePagination = True,
       enableSelection = False, enableSorting = True, stickyHeader = False, striped = True,
       bordered = False, compact = False, className = '''', emptyMessage = ''No data found'',
       loadingMessage = ''Loading...'' \<rparr>
   \<and> title (config (tc\<lparr>title_opt := Some s1\<rparr>)) = s1
   \<and> description (config (tc\<lparr>description_opt := Some s2\<rparr>)) = s2
   \<and> searchPlaceholder (config (tc\<lparr>searchPlaceholder_opt := Some s3\<rparr>)) = s3
   \<and> itemsPerPage (config (tc\<lparr>itemsPerPage_opt := Some n\<rparr>)) = n
   \<and> enableSearch (config (tc\<lparr>enableSearch_opt := Some b1\<rparr>)) = b1
   \<and> enableFilters (config (tc\<lparr>enableFilters_opt := Some b2\<rparr>)) = b2
   \<and> enablePagination (config (tc\<lparr>enablePagination_opt := Some b3\<rparr>)) = b3
   \<and> enableSelection (config (tc\<lparr>enableSelection_opt := Some b4\<rparr>)) = b4
   \<and> enableSorting (config (tc\<lparr>enableSorting_opt := Some b5\<rparr>)) = b5
   \<and> stickyHeader (config (tc\<lparr>stickyHeader_opt := Some b6\<rparr>)) = b6
   \<and> striped (config (tc\<lparr>striped_opt := Some b7\<rparr>)) = b7
   \<and> bordered (config (tc\<lparr>bordered_opt := Some b8\<rparr>)) = b8
   \<and> compact (config (tc\<lparr>compact_opt := Some b9\<rparr>)) = b9
   \<and> className (config (tc\<lparr>className_opt := Some s4\<rparr>)) = s4
   \<and> emptyMessage (config (tc\<lparr>emptyMessage_opt := Some s5\<rparr>)) = s5
   \<and> loadingMessage (config (tc\<lparr>loadingMessage_opt := Some s6\<rparr>)) = s6"
  by (simp add: config_def empty_tableConfig_def spread_def)

text \<open>
  The claim's default layout is not the source's: the claim has the table non-striped by
  default, the source sets \<open>striped: true\<close>.
\<close>

theorem config_defaults_counterexample:
  "\<not> (enableSearch (config empty_tableConfig)
       \<and> enableFilters (config empty_tableConfig)
       \<and> enablePagination (config empty_tableConfig)
       \<and> itemsPerPage (config empty_tableConfig) = 10
       \<and> enableSorting (config empty_tableConfig)
       \<and> \<not> enableSelection (config empty_tableConfig)
       \<and> \<not> striped (config empty_tableConfig)
       \<and> \<not> bordered (config empty_tableConfig)
       \<and> \<not> compact (config empty_tableConfig))"
  by (simp add: config_def empty_tableConfig_def spread_def)

subsection \<open>Selection\<close>

text \<open>
  C10. Unchecking the header checkbox empties the selection, whatever it held (ids of rows
  of other pages included); checking it makes the selection exactly the ids of the rows of
  the current page, in their order, whatever it held before.
\<close>

theorem select_all_replaces_selection:
  "selectedItems (handleSelectAll env p False s) = []
   \<and> selectedItems (handleSelectAll env p True s) = map item_id (currentData_of env p s)"
  by (simp add: handleSelectAll_def Let_def)

subsection \<open>The delete flow\<close>

lemma handleDelete_frame:
  "localData (handleDelete item s) = localData s \<and> calls (handleDelete item s) = calls s
   \<and> selectedItems (handleDelete item s) = selectedItems s
   \<and> currentPage (handleDelete item s) = currentPage s"
  by (simp add: handleDelete_def)

lemma requestBulkDelete_frame:
  "localData (requestBulkDelete s) = localData s \<and> calls (requestBulkDelete s) = calls s
   \<and> selectedItems (requestBulkDelete s) = selectedItems s
   \<and> currentPage (requestBulkDelete s) = currentPage s"
  by (simp add: requestBulkDelete_def)

lemma cancelDelete_frame:
  "localData (cancelDelete s) = localData s \<and> calls (cancelDelete s) = calls s
   \<and> selectedItems (cancelDelete s) = selectedItems s
   \<and> currentPage (cancelDelete s) = currentPage s"
  by (simp add: cancelDelete_def)

lemma confirmDelete_single:
  assumes "itemId (deleteConfirm s) \<noteq> ''bulk''"
  shows "localData (confirmDelete p s)
           = filter (\<lambda>r. item_id r \<noteq> itemId (deleteConfirm s)) (localData s)"
    and "calls (confirmDelete p s)
           = calls s
             @ (if has_onDataChange p
                then [OnDataChange (filter (\<lambda>r. item_id r \<noteq> itemId (deleteConfirm s)) (localData s))]
                else [])
             @ (if has_onItemDelete p then [OnItemDelete (itemId (deleteConfirm s))] else [])"
    and "selectedItems (confirmDelete p s) = selectedItems s"
  using assms by (simp_all add: confirmDelete_def Let_def split: option.splits)

lemma confirmDelete_bulk:
  assumes "itemId (deleteConfirm s) = ''bulk''"
  shows "localData (confirmDelete p s)
           = filter (\<lambda>r. item_id r \<notin> set (selectedItems s)) (localData s)"
    and "calls (confirmDelete p s)
           = calls s
             @ (if has_onDataChange p
                then [OnDataChange (filter (\<lambda>r. item_id r \<notin> set (selectedItems s)) (localData s))]
                else [])
             @ (if has_onItemDelete p then map OnItemDelete (selectedItems s) else [])
             @ selection_effect p []"
    and "selectedItems (confirmDelete p s) = []"
  using assms by (simp_all add: confirmDelete_def Let_def split: option.splits)

text \<open>
  C3. Every action of the delete flow other than the confirmation (asking to delete a row,
  asking to delete the selection, cancelling) leaves the rows as they are and calls no
  callback: it changes the confirmation dialog only. A request opens the dialog (for a row,
  with that row's id pending); cancelling and confirming close it. The confirmation of a requested row
  removes the rows of that id, and reports the new rows to \<open>onDataChange\<close> and the id to
  \<open>onItemDelete\<close>; the confirmation of a requested bulk delete removes the selected rows
  and reports them likewise. (The id \<open>bulk\<close> is the dialog's mark for a bulk delete.)
\<close>

theorem delete_requires_confirmation:
  "(e \<noteq> Confirm \<longrightarrow>
      localData (delete_step p e s) = localData s \<and> calls (delete_step p e s) = calls s)
   \<and> deleteConfirm (delete_step p (RequestDelete item) s)
        = \<lparr>dc_open = True, itemId = item_id item,
           itemName = itemName (deleteConfirm (delete_step p (RequestDelete item) s))\<rparr>
   \<and> dc_open (deleteConfirm (delete_step p RequestBulkDelete s))
   \<and> \<not> dc_open (deleteConfirm (delete_step p Cancel s))
   \<and> \<not> dc_open (deleteConfirm (delete_step p Confirm s))
   \<and> (item_id item \<noteq> ''bulk'' \<longrightarrow>
        localData (delete_step p Confirm (delete_step p (RequestDelete item) s))
          = filter (\<lambda>r. item_id r \<noteq> item_id item) (localData s)
        \<and> calls (delete_step p Confirm (delete_step p (RequestDelete item) s))
          = calls s
            @ (if has_onDataChange p
               then [OnDataChange (filter (\<lambda>r. item_id r \<noteq> item_id item) (localData s))]
               else [])
            @ (if has_onItemDelete p then [OnItemDelete (item_id item)] else []))
   \<and> localData (delete_step p Confirm (delete_step p RequestBulkDelete s))
        = filter (\<lambda>r. item_id r \<notin> set (selectedItems s)) (localData s)
   \<and> calls (delete_step p Confirm (delete_step p RequestBulkDelete s))
        = calls s
          @ (if has_onDataChange p
             then [OnDataChange (filter (\<lambda>r. item_id r \<notin> set (selectedItems s)) (localData s))]
             else [])
          @ (if has_onItemDelete p then map OnItemDelete (selectedItems s) else [])
          @ selection_effect p []"
proof -
  have request: "e \<noteq> Confirm \<longrightarrow>
      localData (delete_step p e s) = localData s \<and> calls (delete_step p e s) = calls s"
    by (cases e) (simp_all add: handleDelete_frame requestBulkDelete_frame cancelDelete_frame)
  have pending: "itemId (deleteConfirm (handleDelete item s)) = item_id item"
    by (simp add: handleDelete_def)
  have single: "item_id item \<noteq> ''bulk'' \<longrightarrow>
        localData (delete_step p Confirm (delete_step p (RequestDelete item) s))
          = filter (\<lambda>r. item_id r \<noteq> item_id item) (localData s)
        \<and> calls (delete_step p Confirm (delete_step p (RequestDelete item) s))
          = calls s
            @ (if has_onDataChange p
               then [OnDataChange (filter (\<lambda>r. item_id r \<noteq> item_id item) (localData s))]
               else [])
            @ (if has_onItemDelete p then [OnItemDelete (item_id item)] else [])"
    using confirmDelete_single[of "handleDelete item s" p]
    by (simp add: pending handleDelete_frame)
  have mark: "itemId (deleteConfirm (requestBulkDelete s)) = ''bulk''"
    by (simp add: requestBulkDelete_def)
  have bulk: "localData (delete_step p Confirm (delete_step p RequestBulkDelete s))
        = filter (\<lambda>r. item_id r \<notin> set (selectedItems s)) (localData s)
   \<and> calls (delete_step p Confirm (delete_step p RequestBulkDelete s))
        = calls s
          @ (if has_onDataChange p
             then [OnDataChange (filter (\<lambda>r. item_id r \<notin> set (selectedItems s)) (localData s))]
             else [])
          @ (if has_onItemDelete p then map OnItemDelete (selectedItems s) else [])
          @ selection_effect p []"
    using confirmDelete_bulk[OF mark, of p]
    by (simp add: requestBulkDelete_frame)
  have opened: "deleteConfirm (delete_step p (RequestDelete item) s)
        = \<lparr>dc_open = True, itemId = item_id item,
           itemName = itemName (deleteConfirm (delete_step p (RequestDelete item) s))\<rparr>"
    by (simp add: handleDelete_def)
  have opened_bulk: "dc_open (deleteConfirm (delete_step p RequestBulkDelete s))"
    by (simp add: requestBulkDelete_def)
  have closed: "\<not> dc_open (deleteConfirm (delete_step p Cancel s))"
    by (simp add: cancelDelete_def closed_confirm_def)
  have closed': "\<not> dc_open (deleteConfirm (delete_step p Confirm s))"
    by (simp add: confirmDelete_def Let_def closed_confirm_def split: option.splits)
  from request opened opened_bulk closed closed' single bulk show ?thesis by blast
qed

theorem delete_requires_confirmation_witness:
  "Cancel \<noteq> Confirm
   \<and> item_id (named_row ''2'' ''Bob'') \<noteq> ''bulk''
   \<and> localData (delete_step one_per_page Cancel
        (delete_step one_per_page (RequestDelete (named_row ''2'' ''Bob''))
          (initial_state [named_row ''1'' ''Ann'', named_row ''2'' ''Bob''])))
       = [named_row ''1'' ''Ann'', named_row ''2'' ''Bob'']
   \<and> calls (delete_step one_per_page Cancel
        (delete_step one_per_page (RequestDelete (named_row ''2'' ''Bob''))
          (initial_state [named_row ''1'' ''Ann'', named_row ''2'' ''Bob''])))
       = []
   \<and> localData (delete_step one_per_page Confirm
        (delete_step one_per_page (RequestDelete (named_row ''2'' ''Bob''))
          (initial_state [named_row ''1'' ''Ann'', named_row ''2'' ''Bob''])))
       = [named_row ''1'' ''Ann'']
   \<and> calls (delete_step one_per_page Confirm
        (delete_step one_per_page (RequestDelete (named_row ''2'' ''Bob''))
          (initial_state [named_row ''1'' ''Ann'', named_row ''2'' ''Bob''])))
       = [OnDataChange [named_row ''1'' ''Ann''], OnItemDelete ''2'']"
proof -
  let ?s0 = "initial_state [named_row ''1'' ''Ann'', named_row ''2'' ''Bob'']"
  let ?s1 = "delete_step one_per_page (RequestDelete (named_row ''2'' ''Bob'')) ?s0"
  have a: "localData ?s1 = localData ?s0 \<and> calls ?s1 = calls ?s0"
    using delete_requires_confirmation
      [of "RequestDelete (named_row ''2'' ''Bob'')" one_per_page ?s0 "named_row ''2'' ''Bob''"]
    by simp
  have b: "localData (delete_step one_per_page Cancel ?s1) = localData ?s1
           \<and> calls (delete_step one_per_page Cancel ?s1) = calls ?s1"
    using delete_requires_confirmation
      [of Cancel one_per_page ?s1 "named_row ''2'' ''Bob''"]
    by simp
  have c: "localData (delete_step one_per_page Confirm ?s1) = [named_row ''1'' ''Ann'']
           \<and> calls (delete_step one_per_page Confirm ?s1)
               = [OnDataChange [named_row ''1'' ''Ann''], OnItemDelete ''2'']"
    using delete_requires_confirmation
      [of Cancel one_per_page ?s0 "named_row ''2'' ''Bob''"]
    by (simp add: named_row_def initial_state_def one_per_page_def)
  have d: "localData ?s0 = [named_row ''1'' ''Ann'', named_row ''2'' ''Bob''] \<and> calls ?s0 = []"
    by (simp add: initial_state_def)
  have e: "item_id (named_row ''2'' ''Bob'') \<noteq> ''bulk''"
    by (simp add: named_row_def)
  from a b c d e show ?thesis by simp
qed

text \<open>
  C4, as the source has it. Confirming a bulk delete removes every row whose id is selected
  and clears the selection. \<open>onItemDelete\<close> is called once for each entry of the
  selection, in the selection's order, whether or not a row carried that id: the calls
  follow the selection, not the rows removed. When the selection holds no id twice and
  only ids of rows, and the rows' ids are unique, the ids reported are exactly the ids of
  the rows removed, each once.
\<close>

theorem bulk_delete_confirmed:
  assumes "itemId (deleteConfirm s) = ''bulk''"
  shows "localData (confirmDelete p s)
           = filter (\<lambda>r. item_id r \<notin> set (selectedItems s)) (localData s)
         \<and> list_all (\<lambda>r. item_id r \<notin> set (selectedItems s)) (localData (confirmDelete p s))
         \<and> selectedItems (confirmDelete p s) = []
         \<and> calls (confirmDelete p s)
             = calls s
               @ (if has_onDataChange p then [OnDataChange (localData (confirmDelete p s))] else [])
               @ (if has_onItemDelete p then map OnItemDelete (selectedItems s) else [])
               @ selection_effect p []
         \<and> (distinct (selectedItems s) \<and> distinct (map item_id (localData s))
              \<and> set (selectedItems s) \<subseteq> set (map item_id (localData s))
             \<longrightarrow> mset (selectedItems s)
                   = mset (map item_id
                       (filter (\<lambda>r. item_id r \<in> set (selectedItems s)) (localData s))))"
proof -
  have rows: "localData (confirmDelete p s)
                = filter (\<lambda>r. item_id r \<notin> set (selectedItems s)) (localData s)"
    using assms by (rule confirmDelete_bulk(1))
  have gone: "list_all (\<lambda>r. item_id r \<notin> set (selectedItems s)) (localData (confirmDelete p s))"
    by (simp add: rows list_all_iff)
  have sel: "selectedItems (confirmDelete p s) = []"
    using assms by (rule confirmDelete_bulk(3))
  have log: "calls (confirmDelete p s)
             = calls s
               @ (if has_onDataChange p then [OnDataChange (localData (confirmDelete p s))] else [])
               @ (if has_onItemDelete p then map OnItemDelete (selectedItems s) else [])
               @ selection_effect p []"
    using confirmDelete_bulk(2)[OF assms, of p] by (simp add: rows)
  have once: "mset (selectedItems s)
                = mset (map item_id (filter (\<lambda>r. item_id r \<in> set (selectedItems s)) (localData s)))"
    if d1: "distinct (selectedItems s)" and d2: "distinct (map item_id (localData s))"
      and sub: "set (selectedItems s) \<subseteq> set (map item_id (localData s))"
  proof -
    let ?removed = "map item_id (filter (\<lambda>r. item_id r \<in> set (selectedItems s)) (localData s))"
    have "distinct ?removed"
      using d2 by (rule distinct_map_filter)
    moreover have "set ?removed = set (selectedItems s)"
      using sub by auto
    ultimately show ?thesis
      using set_eq_iff_mset_eq_distinct[OF d1, of ?removed] by blast
  qed
  from rows gone sel log once show ?thesis by blast
qed

theorem bulk_delete_confirmed_witness:
  "itemId (deleteConfirm second_row_selected) = ''bulk''
   \<and> selectedItems second_row_selected = [''2'']
   \<and> distinct (selectedItems second_row_selected)
   \<and> distinct (map item_id (localData second_row_selected))
   \<and> set (selectedItems second_row_selected) \<subseteq> set (map item_id (localData second_row_selected))
   \<and> mset (selectedItems second_row_selected)
       = mset (map item_id
           (filter (\<lambda>r. item_id r \<in> set (selectedItems second_row_selected))
             (localData second_row_selected)))
   \<and> localData (confirmDelete one_per_page second_row_selected) = [named_row ''1'' ''Ann'']
   \<and> selectedItems (confirmDelete one_per_page second_row_selected) = []
   \<and> calls (confirmDelete one_per_page second_row_selected)
       = [OnItemsSelect [''2''], OnDataChange [named_row ''1'' ''Ann''], OnItemDelete ''2'',
          OnItemsSelect []]"
proof -
  have h: "itemId (deleteConfirm second_row_selected) = ''bulk''"
    by code_simp
  note t = bulk_delete_confirmed[OF h, of one_per_page]
  have sel: "selectedItems second_row_selected = [''2'']"
    by code_simp
  have d1: "distinct (selectedItems second_row_selected)"
    by code_simp
  have d2: "distinct (map item_id (localData second_row_selected))"
    by code_simp
  have d3: "set (selectedItems second_row_selected) \<subseteq> set (map item_id (localData second_row_selected))"
    by code_simp
  have once: "mset (selectedItems second_row_selected)
       = mset (map item_id
           (filter (\<lambda>r. item_id r \<in> set (selectedItems second_row_selected))
             (localData second_row_selected)))"
    using t d1 d2 d3 by blast
  have rows: "filter (\<lambda>r. item_id r \<notin> set (selectedItems second_row_selected))
                (localData second_row_selected) = [named_row ''1'' ''Ann'']"
    by code_simp
  have r1: "localData (confirmDelete one_per_page second_row_selected) = [named_row ''1'' ''Ann'']"
    using t rows by (simp only:)
  have r2: "selectedItems (confirmDelete one_per_page second_row_selected) = []"
    using t by blast
  have log: "calls second_row_selected
               @ (if has_onDataChange one_per_page then [OnDataChange [named_row ''1'' ''Ann'']] else [])
               @ (if has_onItemDelete one_per_page
                  then map OnItemDelete (selectedItems second_row_selected) else [])
               @ selection_effect one_per_page []
             = [OnItemsSelect [''2''], OnDataChange [named_row ''1'' ''Ann''], OnItemDelete ''2'',
                OnItemsSelect []]"
    by code_simp
  have r3: "calls (confirmDelete one_per_page second_row_selected)
       = [OnItemsSelect [''2''], OnDataChange [named_row ''1'' ''Ann''], OnItemDelete ''2'',
          OnItemsSelect []]"
    using t r1 log by (simp only:)
  show ?thesis
    by (intro conjI) (rule h sel d1 d2 d3 once r1 r2 r3)+
qed

text \<open>
  The claim has no call for an id that removed no row. After row 1 was selected and then
  deleted on its own, its id is still in the selection; the next bulk delete, of the
  selection with row 2 added, reports the id 1 again although no row carries it.
\<close>

theorem bulk_delete_counterexample:
  "''1'' \<notin> set (map item_id (localData stale_selection))
   \<and> itemId (deleteConfirm stale_selection) = ''bulk''
   \<and> selectedItems stale_selection = [''1'', ''2'']
   \<and> drop (length (calls stale_selection)) (calls (confirmDelete one_per_page stale_selection))
       = [OnDataChange [named_row ''3'' ''Cy''], OnItemDelete ''1'', OnItemDelete ''2'',
          OnItemsSelect []]"
  by code_simp

subsection \<open>The page index after a delete\<close>

lemma length_place: "length (place cmp x xs) = Suc (length xs)"
  by (induction xs) simp_all

lemma length_foldl_place:
  "length (foldl (\<lambda>placed x. place cmp x placed) acc xs) = length acc + length xs"
  by (induction xs arbitrary: acc) (simp_all add: length_place)

lemma length_array_sort: "length (array_sort cmp xs) = length xs"
  by (simp add: array_sort_def length_foldl_place)

lemma filteredData_unfiltered_length:
  assumes "searchTerm s = []" and "activeFilters s = []"
  shows "length (filteredData env p s) = length (localData s)"
  using assms
  by (simp add: filteredData_def Let_def length_array_sort split: option.splits)

lemma confirmDelete_frame:
  "searchTerm (confirmDelete p s) = searchTerm s
   \<and> activeFilters (confirmDelete p s) = activeFilters s
   \<and> sortConfig (confirmDelete p s) = sortConfig s"
  by (simp add: confirmDelete_def Let_def split: option.splits)

lemma confirmDelete_page:
  "currentPage (confirmDelete p s) =
     (case ceil_div
             (if itemId (deleteConfirm s) = ''bulk''
              then int (length (filter (\<lambda>item. item_id item \<notin> set (selectedItems s)) (localData s)))
              else int (length (localData s)) - 1)
             (itemsPerPage (config (tableConfig p))) of
        Some n \<Rightarrow> if currentPage s > n \<and> n > 0 then n else currentPage s
      | None \<Rightarrow> currentPage s)"
  by (simp add: confirmDelete_def Let_def split: option.splits)

lemma length_filter_others:
  assumes "length (filter (\<lambda>r. item_id r = i) rows) = 1"
  shows "int (length (filter (\<lambda>r. item_id r \<noteq> i) rows)) = int (length rows) - 1"
proof -
  have "length (filter (\<lambda>r. item_id r = i) rows) + length (filter (\<lambda>r. \<not> item_id r = i) rows)
          = length rows"
    by (rule sum_length_filter_compl)
  with assms show ?thesis by simp
qed

lemma page_numbers_positive:
  assumes "1 < pages" and "PageNumber k \<in> set (generatePageNumbers pages current)"
  shows "1 \<le> k"
  using assms
  by (auto simp: generatePageNumbers_def split: if_splits)

lemma page_step_floor:
  assumes "1 \<le> currentPage s"
  shows "1 \<le> currentPage (page_step env p e s)"
proof (cases "totalPages (config (tableConfig p)) (filteredData env p s)")
  case None
  with assms show ?thesis
    by (simp add: page_step_def)
next
  case (Some pages)
  show ?thesis
  proof (cases "enablePagination (config (tableConfig p)) \<and> pages > 1")
    case False
    with Some assms show ?thesis
      by (auto simp: page_step_def)
  next
    case True
    show ?thesis
    proof (cases e)
      case Previous
      with Some True show ?thesis
        by (simp add: page_step_def setCurrentPage_def)
    next
      case Next
      with Some True assms show ?thesis
        by (simp add: page_step_def setCurrentPage_def)
    next
      case (Page k)
      show ?thesis
      proof (cases "PageNumber k \<in> set (generatePageNumbers pages (currentPage s))")
        case shown: True
        with True have "1 \<le> k"
          using page_numbers_positive[of pages k "currentPage s"] by simp
        with Some True Page shown show ?thesis
          by (simp add: page_step_def setCurrentPage_def)
      next
        case False
        with Some True Page assms show ?thesis
          by (simp add: page_step_def)
      qed
    qed
  qed
qed

lemma confirmDelete_floor:
  "1 \<le> currentPage s \<Longrightarrow> 1 \<le> currentPage (confirmDelete p s)"
  using confirmDelete_page[of p s] by (auto split: option.splits)

lemma delete_step_floor:
  "1 \<le> currentPage s \<Longrightarrow> 1 \<le> currentPage (delete_step p e s)"
  by (cases e)
     (simp_all add: handleDelete_frame requestBulkDelete_frame cancelDelete_frame
        confirmDelete_floor)

lemma grid_step_floor:
  assumes "1 \<le> currentPage s"
  shows "1 \<le> currentPage (grid_step env p e s)"
proof (cases e)
  case (Sort k)
  with assms show ?thesis
    by (simp add: handleSort_def split: option.splits)
next
  case (Delete d)
  with assms show ?thesis
    by (simp add: delete_step_floor)
next
  case (Paging pe)
  with assms show ?thesis
    by (simp add: page_step_floor)
qed (use assms in \<open>simp_all add: setSearchTerm_def setActiveFilter_def clearFilters_def
      handleSelectAll_def handleSelectItem_def clearSelection_def handleModalSave_def
      reseed_def Let_def\<close>)

lemma steps_floor:
  "1 \<le> currentPage s \<Longrightarrow> 1 \<le> currentPage (foldl (\<lambda>s e. grid_step env p e s) s events)"
  by (induction events arbitrary: s) (simp_all add: grid_step_floor)

lemma session_floor: "1 \<le> currentPage (session env p data events)"
  unfolding session_def by (rule steps_floor) (simp add: initial_state_def)

text \<open>
  C1, as the source has it. The page index is at least 1 in every state a session reaches
  (searching, filtering, sorting, selecting, the delete flow, the pagination bar, saving an
  edit and new rows from the parent), and a confirmed delete never takes a page index of at
  least 1 below 1. Take a confirmed delete with a positive page size, while no search term
  and no filter is active and, for a single delete, exactly one row carries the pending id.
  Let \<open>n\<close> be the number of pages of the rows left, \<open>ceil (count / itemsPerPage)\<close>.
  If the page index was past \<open>n\<close> and \<open>n > 0\<close>, the page index becomes \<open>n\<close>;
  otherwise it is left as it was, also when no page is left (\<open>n = 0\<close>). So when pages
  exist the index is not past the last of them afterwards.
\<close>

theorem confirmDelete_clamps_page:
  "1 \<le> currentPage (session env p data events)
   \<and> (1 \<le> currentPage s \<longrightarrow> 1 \<le> currentPage (confirmDelete p s))
   \<and> (0 < itemsPerPage (config (tableConfig p))
       \<and> searchTerm s = [] \<and> activeFilters s = []
       \<and> (itemId (deleteConfirm s) = ''bulk''
            \<or> length (filter (\<lambda>r. item_id r = itemId (deleteConfirm s)) (localData s)) = 1)
      \<longrightarrow> (\<exists>n. n = \<lceil>real (length (filteredData env p (confirmDelete p s)))
                          / real (itemsPerPage (config (tableConfig p)))\<rceil>
                 \<and> totalPages (config (tableConfig p)) (filteredData env p (confirmDelete p s))
                     = Some n
                 \<and> currentPage (confirmDelete p s)
                     = (if currentPage s > n \<and> n > 0 then n else currentPage s)
                 \<and> (0 < n \<longrightarrow> currentPage (confirmDelete p s) \<le> n)))"
proof -
  let ?s' = "confirmDelete p s"
  let ?ipp = "itemsPerPage (config (tableConfig p))"
  let ?count = "if itemId (deleteConfirm s) = ''bulk''
     then int (length (filter (\<lambda>item. item_id item \<notin> set (selectedItems s)) (localData s)))
     else int (length (localData s)) - 1"
  have always: "1 \<le> currentPage (session env p data events)"
    by (rule session_floor)
  have floor: "1 \<le> currentPage s \<longrightarrow> 1 \<le> currentPage ?s'"
    by (simp add: confirmDelete_floor)
  have clamp: "\<exists>n. n = \<lceil>real (length (filteredData env p ?s')) / real ?ipp\<rceil>
                 \<and> totalPages (config (tableConfig p)) (filteredData env p ?s') = Some n
                 \<and> currentPage ?s' = (if currentPage s > n \<and> n > 0 then n else currentPage s)
                 \<and> (0 < n \<longrightarrow> currentPage ?s' \<le> n)"
    if ipp: "0 < ?ipp" and nosearch: "searchTerm s = []" and nofilter: "activeFilters s = []"
      and one: "itemId (deleteConfirm s) = ''bulk''
         \<or> length (filter (\<lambda>r. item_id r = itemId (deleteConfirm s)) (localData s)) = 1"
  proof -
    have "length (filteredData env p ?s') = length (localData ?s')"
      using nosearch nofilter
      by (intro filteredData_unfiltered_length) (simp_all add: confirmDelete_frame)
    moreover have "int (length (localData ?s')) = ?count"
    proof (cases "itemId (deleteConfirm s) = ''bulk''")
      case True
      then show ?thesis by (simp add: confirmDelete_bulk(1))
    next
      case False
      with one have "length (filter (\<lambda>r. item_id r = itemId (deleteConfirm s)) (localData s)) = 1"
        by blast
      then show ?thesis
        using False by (simp add: confirmDelete_single(1) length_filter_others)
    qed
    ultimately have same: "totalPages (config (tableConfig p)) (filteredData env p ?s')
                            = ceil_div ?count ?ipp"
      by (simp add: totalPages_def)
    obtain n where n: "ceil_div ?count ?ipp = Some n"
      using ipp by (simp add: ceil_div_def)
    have "totalPages (config (tableConfig p)) (filteredData env p ?s')
            = Some \<lceil>real (length (filteredData env p ?s')) / real ?ipp\<rceil>"
      using ipp by (rule totalPages_is_ceiling)
    with same n have ceil: "n = \<lceil>real (length (filteredData env p ?s')) / real ?ipp\<rceil>"
      by simp
    have page: "currentPage ?s' = (if currentPage s > n \<and> n > 0 then n else currentPage s)"
      using confirmDelete_page[of p s] n by simp
    show ?thesis
      using same n ceil page by auto
  qed
  from always floor clamp show ?thesis by blast
qed

theorem confirmDelete_clamps_page_witness:
  "0 < itemsPerPage (config (tableConfig one_per_page))
   \<and> searchTerm second_row_selected = []
   \<and> activeFilters second_row_selected = []
   \<and> itemId (deleteConfirm second_row_selected) = ''bulk''
   \<and> currentPage second_row_selected = 2
   \<and> totalPages (config (tableConfig one_per_page))
        (filteredData sample_host one_per_page
          (confirmDelete one_per_page second_row_selected)) = Some 1
   \<and> currentPage (confirmDelete one_per_page second_row_selected) = 1"
proof -
  let ?s = "second_row_selected"
  have h1: "0 < itemsPerPage (config (tableConfig one_per_page))"
    by code_simp
  have h2: "searchTerm ?s = []"
    by code_simp
  have h3: "activeFilters ?s = []"
    by code_simp
  have h4: "itemId (deleteConfirm ?s) = ''bulk''"
    by code_simp
  have pg: "currentPage ?s = 2"
    by code_simp
  have tp: "totalPages (config (tableConfig one_per_page))
        (filteredData sample_host one_per_page (confirmDelete one_per_page ?s)) = Some 1"
    by code_simp
  from confirmDelete_clamps_page[of sample_host one_per_page "[]" "[]" ?s] h1 h2 h3 h4
  obtain n where "totalPages (config (tableConfig one_per_page))
        (filteredData sample_host one_per_page (confirmDelete one_per_page ?s)) = Some n"
    and "currentPage (confirmDelete one_per_page ?s)
           = (if currentPage ?s > n \<and> n > 0 then n else currentPage ?s)"
    by blast
  with tp pg have r: "currentPage (confirmDelete one_per_page ?s) = 1"
    by simp
  show ?thesis
    by (intro conjI) (rule h1 h2 h3 h4 pg tp r)+
qed

text \<open>
  The claim fails in two ways. When the delete leaves no row, the page index is not set to
  \<open>max(1, 0) = 1\<close>: the guard \<open>newTotalPages > 0\<close> leaves it where it was (here 2). And
  the page count the source compares with is that of all rows, not of the filtered rows:
  with a search active, deleting the only row of the last page of the search result leaves
  the page index (here 2) past the last page of the result (here 1).
\<close>

theorem confirmDelete_clamps_page_counterexample:
  "currentPage all_selected_on_page_two = 2
   \<and> totalPages (config (tableConfig one_per_page))
        (filteredData sample_host one_per_page
          (confirmDelete one_per_page all_selected_on_page_two)) = Some 0
   \<and> currentPage (confirmDelete one_per_page all_selected_on_page_two) \<noteq> max 1 0
   \<and> currentPage searched_on_page_two = 2
   \<and> totalPages (config (tableConfig one_per_page))
        (filteredData sample_host one_per_page
          (confirmDelete one_per_page searched_on_page_two)) = Some 1
   \<and> currentPage (confirmDelete one_per_page searched_on_page_two) \<noteq> max 1 1"
  by code_simp

subsection \<open>Sorting\<close>

lemma compare_rows_null_left:
  "nullish (item_get a (sort_key sc)) \<Longrightarrow> compare_rows env sc a b = 1"
  by (simp add: compare_rows_def Let_def)

lemma compare_rows_null_right:
  "\<not> nullish (item_get a (sort_key sc)) \<Longrightarrow> nullish (item_get b (sort_key sc))
   \<Longrightarrow> compare_rows env sc a b = - 1"
  by (simp add: compare_rows_def Let_def)

lemma place_null:
  assumes "nullish (item_get x (sort_key sc))"
  shows "place (compare_rows env sc) x xs = xs @ [x]"
  by (induction xs) (simp_all add: compare_rows_null_left[OF assms])

lemma place_present:
  assumes x: "\<not> nullish (item_get x (sort_key sc))"
    and zs: "list_all (\<lambda>r. nullish (item_get r (sort_key sc))) zs"
  shows "list_all (\<lambda>r. \<not> nullish (item_get r (sort_key sc))) ys
         \<Longrightarrow> \<exists>ys'. place (compare_rows env sc) x (ys @ zs) = ys' @ zs
                  \<and> list_all (\<lambda>r. \<not> nullish (item_get r (sort_key sc))) ys'"
proof (induction ys)
  case Nil
  show ?case
  proof (cases zs)
    case Nil
    with x show ?thesis by simp
  next
    case (Cons z zs')
    with zs have "nullish (item_get z (sort_key sc))" by simp
    with x have "compare_rows env sc x z = - 1"
      by (rule compare_rows_null_right)
    with Cons x have "place (compare_rows env sc) x ([] @ zs) = [x] @ zs" by simp
    moreover have "list_all (\<lambda>r. \<not> nullish (item_get r (sort_key sc))) [x]"
      using x by simp
    ultimately show ?thesis by blast
  qed
next
  case (Cons y ys)
  then obtain ys' where ih: "place (compare_rows env sc) x (ys @ zs) = ys' @ zs"
      "list_all (\<lambda>r. \<not> nullish (item_get r (sort_key sc))) ys'"
    by auto
  show ?case
  proof (cases "compare_rows env sc x y < 0")
    case True
    then have "place (compare_rows env sc) x ((y # ys) @ zs) = (x # y # ys) @ zs" by simp
    moreover have "list_all (\<lambda>r. \<not> nullish (item_get r (sort_key sc))) (x # y # ys)"
      using x Cons.prems by simp
    ultimately show ?thesis by blast
  next
    case False
    then have "place (compare_rows env sc) x ((y # ys) @ zs) = (y # ys') @ zs"
      using ih(1) by simp
    moreover have "list_all (\<lambda>r. \<not> nullish (item_get r (sort_key sc))) (y # ys')"
      using ih(2) Cons.prems by simp
    ultimately show ?thesis by blast
  qed
qed

lemma foldl_place_nulls_last:
  assumes "list_all (\<lambda>r. \<not> nullish (item_get r (sort_key sc))) ys"
    and "list_all (\<lambda>r. nullish (item_get r (sort_key sc))) zs"
  shows "\<exists>present absent.
           foldl (\<lambda>placed x. place (compare_rows env sc) x placed) (ys @ zs) xs = present @ absent
           \<and> list_all (\<lambda>r. \<not> nullish (item_get r (sort_key sc))) present
           \<and> list_all (\<lambda>r. nullish (item_get r (sort_key sc))) absent"
  using assms
proof (induction xs arbitrary: ys zs)
  case Nil
  then show ?case by auto
next
  case (Cons x xs)
  show ?case
  proof (cases "nullish (item_get x (sort_key sc))")
    case True
    then have "place (compare_rows env sc) x (ys @ zs) = ys @ (zs @ [x])"
      by (simp add: place_null)
    moreover have "list_all (\<lambda>r. nullish (item_get r (sort_key sc))) (zs @ [x])"
      using True Cons.prems(2) by simp
    ultimately show ?thesis
      using Cons.IH[OF Cons.prems(1), of "zs @ [x]"] by simp
  next
    case False
    from place_present[OF False Cons.prems(2) Cons.prems(1), of env]
    obtain ys' where ys': "place (compare_rows env sc) x (ys @ zs) = ys' @ zs"
        "list_all (\<lambda>r. \<not> nullish (item_get r (sort_key sc))) ys'"
      by blast
    then show ?thesis
      using Cons.IH[OF ys'(2) Cons.prems(2)] by simp
  qed
qed

lemma array_sort_nulls_last:
  "\<exists>present absent.
     array_sort (compare_rows env sc) rows = present @ absent
     \<and> list_all (\<lambda>r. \<not> nullish (item_get r (sort_key sc))) present
     \<and> list_all (\<lambda>r. nullish (item_get r (sort_key sc))) absent"
  using foldl_place_nulls_last[of sc "[]" "[]" env rows]
  by (simp add: array_sort_def)

lemma mset_place: "mset (place cmp x xs) = add_mset x (mset xs)"
  by (induction xs) simp_all

lemma mset_foldl_place:
  "mset (foldl (\<lambda>placed x. place cmp x placed) acc xs) = mset acc + mset xs"
  by (induction xs arbitrary: acc) (simp_all add: mset_place)

lemma mset_array_sort: "mset (array_sort cmp xs) = mset xs"
  by (simp add: array_sort_def mset_foldl_place)

lemma filteredData_sorted:
  assumes "enableSorting (config (tableConfig p))" and "sortConfig s = Some sc"
  shows "filteredData env p s
           = array_sort (compare_rows env sc) (filteredData env p (s\<lparr>sortConfig := None\<rparr>))"
  using assms by (simp add: filteredData_def Let_def)

lemma adjacent_ordered_after_null:
  assumes "adjacent_ordered (compare_rows env sc) (x # rest)"
    and "nullish (item_get x (sort_key sc))"
  shows "list_all (\<lambda>r. nullish (item_get r (sort_key sc))) (x # rest)"
  using assms
proof (induction rest arbitrary: x)
  case Nil
  then show ?case by simp
next
  case (Cons y ys)
  have "nullish (item_get y (sort_key sc))"
  proof (rule ccontr)
    assume "\<not> nullish (item_get y (sort_key sc))"
    then have "compare_rows env sc y x = - 1"
      using Cons.prems(2) by (rule compare_rows_null_right)
    with Cons.prems(1) show False by simp
  qed
  moreover have "adjacent_ordered (compare_rows env sc) (y # ys)"
    using Cons.prems(1) by simp
  ultimately have "list_all (\<lambda>r. nullish (item_get r (sort_key sc))) (y # ys)"
    by (rule Cons.IH[rotated])
  with Cons.prems(2) show ?case by simp
qed

lemma adjacent_ordered_nulls_last:
  "adjacent_ordered (compare_rows env sc) out
   \<Longrightarrow> \<exists>present absent.
         out = present @ absent
         \<and> list_all (\<lambda>r. \<not> nullish (item_get r (sort_key sc))) present
         \<and> list_all (\<lambda>r. nullish (item_get r (sort_key sc))) absent"
proof (induction out)
  case Nil
  then show ?case by simp
next
  case (Cons x rest)
  show ?case
  proof (cases "nullish (item_get x (sort_key sc))")
    case True
    with Cons.prems have "list_all (\<lambda>r. nullish (item_get r (sort_key sc))) (x # rest)"
      by (rule adjacent_ordered_after_null)
    then have "x # rest = [] @ (x # rest)
         \<and> list_all (\<lambda>r. \<not> nullish (item_get r (sort_key sc))) []
         \<and> list_all (\<lambda>r. nullish (item_get r (sort_key sc))) (x # rest)"
      by simp
    then show ?thesis by blast
  next
    case False
    have "adjacent_ordered (compare_rows env sc) rest"
      using Cons.prems by (cases rest) simp_all
    with Cons.IH obtain present absent where rest: "rest = present @ absent"
      "list_all (\<lambda>r. \<not> nullish (item_get r (sort_key sc))) present"
      "list_all (\<lambda>r. nullish (item_get r (sort_key sc))) absent"
      by blast
    then have "x # rest = (x # present) @ absent
         \<and> list_all (\<lambda>r. \<not> nullish (item_get r (sort_key sc))) (x # present)
         \<and> list_all (\<lambda>r. nullish (item_get r (sort_key sc))) absent"
      using False by simp
    then show ?thesis by blast
  qed
qed

text \<open>
  C5. When sorting is enabled and a sort on a key is active, in either direction, the rows
  the pipeline yields are the rows it yields without the sort, rearranged so that every row
  whose value under the key is \<open>null\<close> or \<open>undefined\<close> comes after every row whose value
  is neither. For the scores \<open>null\<close>, 10, 5: the first click on the column header sorts
  ascending and gives 5, 10, \<open>null\<close>; the second sorts descending and gives 10, 5,
  \<open>null\<close>. The comparator alone forces the null rows to the end: they are last in every
  list in which no row is directly followed by a row that the comparator orders before it,
  whichever algorithm produced the list.
\<close>

theorem sort_puts_null_last:
  "(enableSorting (config (tableConfig p)) \<and> sortConfig s = Some sc \<longrightarrow>
      (\<exists>present absent.
         filteredData env p s = present @ absent
         \<and> list_all (\<lambda>r. \<not> nullish (item_get r (sort_key sc))) present
         \<and> list_all (\<lambda>r. nullish (item_get r (sort_key sc))) absent)
      \<and> mset (filteredData env p s) = mset (filteredData env p (s\<lparr>sortConfig := None\<rparr>)))
   \<and> (adjacent_ordered (compare_rows env sc) out \<longrightarrow>
        (\<exists>present absent.
           out = present @ absent
           \<and> list_all (\<lambda>r. \<not> nullish (item_get r (sort_key sc))) present
           \<and> list_all (\<lambda>r. nullish (item_get r (sort_key sc))) absent))
   \<and> sortConfig (handleSort score_grid ''score'' (initial_state score_rows))
       = Some \<lparr>sort_key = ''score'', sort_direction = Asc\<rparr>
   \<and> map (\<lambda>r. item_get r ''score'')
        (filteredData env score_grid (handleSort score_grid ''score'' (initial_state score_rows)))
       = [VNum 5, VNum 10, VNull]
   \<and> sortConfig (handleSort score_grid ''score''
        (handleSort score_grid ''score'' (initial_state score_rows)))
       = Some \<lparr>sort_key = ''score'', sort_direction = Desc\<rparr>
   \<and> map (\<lambda>r. item_get r ''score'')
        (filteredData env score_grid
          (handleSort score_grid ''score''
            (handleSort score_grid ''score'' (initial_state score_rows))))
       = [VNum 10, VNum 5, VNull]"
proof -
  have general: "enableSorting (config (tableConfig p)) \<and> sortConfig s = Some sc \<longrightarrow>
      (\<exists>present absent.
         filteredData env p s = present @ absent
         \<and> list_all (\<lambda>r. \<not> nullish (item_get r (sort_key sc))) present
         \<and> list_all (\<lambda>r. nullish (item_get r (sort_key sc))) absent)
      \<and> mset (filteredData env p s) = mset (filteredData env p (s\<lparr>sortConfig := None\<rparr>))"
    by (simp add: filteredData_sorted array_sort_nulls_last mset_array_sort)
  have any_engine: "adjacent_ordered (compare_rows env sc) out \<longrightarrow>
        (\<exists>present absent.
           out = present @ absent
           \<and> list_all (\<lambda>r. \<not> nullish (item_get r (sort_key sc))) present
           \<and> list_all (\<lambda>r. nullish (item_get r (sort_key sc))) absent)"
    using adjacent_ordered_nulls_last[of env sc out] by blast
  have asc: "sortConfig (handleSort score_grid ''score'' (initial_state score_rows))
       = Some \<lparr>sort_key = ''score'', sort_direction = Asc\<rparr>"
    by (simp add: handleSort_def score_grid_def initial_state_def)
  have desc: "sortConfig (handleSort score_grid ''score''
        (handleSort score_grid ''score'' (initial_state score_rows)))
       = Some \<lparr>sort_key = ''score'', sort_direction = Desc\<rparr>"
    by (simp add: handleSort_def score_grid_def initial_state_def)
  have up: "map (\<lambda>r. item_get r ''score'')
        (filteredData env score_grid (handleSort score_grid ''score'' (initial_state score_rows)))
       = [VNum 5, VNum 10, VNull]"
    by (simp add: filteredData_def Let_def asc)
       (simp add: score_grid_def config_def empty_tableConfig_def spread_def initial_state_def
         handleSort_def score_rows_def array_sort_def compare_rows_def item_get_def)
  have down: "map (\<lambda>r. item_get r ''score'')
        (filteredData env score_grid
          (handleSort score_grid ''score''
            (handleSort score_grid ''score'' (initial_state score_rows))))
       = [VNum 10, VNum 5, VNull]"
    by (simp add: filteredData_def Let_def desc)
       (simp add: score_grid_def config_def empty_tableConfig_def spread_def initial_state_def
         handleSort_def score_rows_def array_sort_def compare_rows_def item_get_def)
  from general any_engine asc up desc down show ?thesis by blast
qed

theorem sort_puts_null_last_witness:
  "enableSorting (config (tableConfig score_grid))
   \<and> sortConfig (handleSort score_grid ''score'' (initial_state score_rows))
       = Some \<lparr>sort_key = ''score'', sort_direction = Asc\<rparr>
   \<and> adjacent_ordered (compare_rows sample_host \<lparr>sort_key = ''score'', sort_direction = Asc\<rparr>)
        (filteredData sample_host score_grid (handleSort score_grid ''score'' (initial_state score_rows)))
   \<and> filteredData sample_host score_grid (handleSort score_grid ''score'' (initial_state score_rows))
       = [\<lparr>item_id = ''c'', item_fields = [(''score'', VNum 5)]\<rparr>,
          \<lparr>item_id = ''b'', item_fields = [(''score'', VNum 10)]\<rparr>]
         @ [\<lparr>item_id = ''a'', item_fields = [(''score'', VNull)]\<rparr>]
   \<and> mset (filteredData sample_host score_grid
               (handleSort score_grid ''score'' (initial_state score_rows)))
       = mset score_rows"
proof -
  let ?s = "handleSort score_grid ''score'' (initial_state score_rows)"
  let ?sc = "\<lparr>sort_key = ''score'', sort_direction = Asc\<rparr>"
  have h1: "enableSorting (config (tableConfig score_grid))"
    by code_simp
  have h2: "sortConfig ?s = Some ?sc"
    by code_simp
  have h3: "adjacent_ordered (compare_rows sample_host ?sc) (filteredData sample_host score_grid ?s)"
    by code_simp
  have out: "filteredData sample_host score_grid ?s
       = [\<lparr>item_id = ''c'', item_fields = [(''score'', VNum 5)]\<rparr>,
          \<lparr>item_id = ''b'', item_fields = [(''score'', VNum 10)]\<rparr>]
         @ [\<lparr>item_id = ''a'', item_fields = [(''score'', VNull)]\<rparr>]"
    by code_simp
  have unsorted: "filteredData sample_host score_grid (?s\<lparr>sortConfig := None\<rparr>) = score_rows"
    by code_simp
  from sort_puts_null_last
    [of score_grid ?s ?sc sample_host "filteredData sample_host score_grid ?s"] h1 h2 h3
  have "mset (filteredData sample_host score_grid ?s)
          = mset (filteredData sample_host score_grid (?s\<lparr>sortConfig := None\<rparr>))"
    by blast
  then have r: "mset (filteredData sample_host score_grid ?s) = mset score_rows"
    by (simp only: unsorted)
  show ?thesis
    by (intro conjI) (rule h1 h2 h3 out r)+
qed

subsection \<open>Validation on save\<close>











lemma map_of_update_keeps:
  "map_of al k \<noteq> None \<Longrightarrow> map_of (AList.update k' v al) k \<noteq> None"
  by (simp add: update_conv')













text \<open>
  C2 does not hold of the source: \<open>validateForm\<close> never consults \<open>showWhen\<close>. For a
  record that is not married, the required field \<open>spouse\<close>, shown for married people
  only, is not rendered; yet the save is refused with the error \<open>Spouse is required\<close>
  under its key, which no rendered field displays, and \<open>onSave\<close> is not called. In
  general, the outcome of validating a field is the same whatever its \<open>showWhen\<close> is.
\<close>

theorem hidden_field_is_validated:
  "\<not> field_rendered spouse_field unmarried
   \<and> handleSave regexTest [spouse_field] (open_modal unmarried)
       = Inr \<lparr>formData = Some unmarried, errors = [(''spouse'', ''Spouse is required'')],
              uploadedFiles = [], onSave_calls = []\<rparr>
   \<and> validateField regexTest fd (cfg\<lparr>showWhen := visible\<rparr>) newErrors
       = validateField regexTest fd cfg newErrors"
proof -
  have hidden: "\<not> field_rendered spouse_field unmarried"
    by (simp add: field_rendered_def spouse_field_def unmarried_def item_get_def)
  have field: "validateField regexTest unmarried spouse_field []
                 = Inr [(''spouse'', ''Spouse is required'')]"
    by (simp add: validateField_def Let_def spouse_field_def unmarried_def item_get_def)
  have save: "handleSave regexTest [spouse_field] (open_modal unmarried)
       = Inr \<lparr>formData = Some unmarried, errors = [(''spouse'', ''Spouse is required'')],
              uploadedFiles = [], onSave_calls = []\<rparr>"
    by (simp add: handleSave_def validateForm_def open_modal_def field)
  have sc: "string_checks regexTest (cfg\<lparr>showWhen := visible\<rparr>) rules str e
              = string_checks regexTest cfg rules str e" for rules str e
    by (simp add: string_checks_def Let_def cong: option.case_cong if_cong)
  have nc: "number_checks (cfg\<lparr>showWhen := visible\<rparr>) rules n e = number_checks cfg rules n e"
    for rules n e
    by (simp add: number_checks_def Let_def cong: option.case_cong if_cong)
  have cc: "custom_check (cfg\<lparr>showWhen := visible\<rparr>) rules v e = custom_check cfg rules v e"
    for rules v e
    by (simp add: custom_check_def cong: option.case_cong if_cong)
  have same: "validateField regexTest fd (cfg\<lparr>showWhen := visible\<rparr>) newErrors
       = validateField regexTest fd cfg newErrors"
    by (cases "item_get fd (key cfg)"; cases "validation cfg")
       (simp_all add: validateField_def Let_def sc nc cc cong: sum.case_cong)
  from hidden save same show ?thesis by blast
qed

subsection \<open>The date filter\<close>

lemma date_filter_cases:
  assumes "filter_type f = ''date''"
  shows "filterPredicate env f itemValue filterValue =
           (case (newDate env itemValue, newDate env (VStr filterValue)) of
              (Some a, Some b) \<Rightarrow> localDay env a = localDay env b
            | (None, None) \<Rightarrow> True
            | _ \<Rightarrow> False)"
  using assms
  by (simp add: filterPredicate_def toDateString_def split: option.splits)

text \<open>
  C9 does not hold of the source when neither value is a date. The row's \<open>soon\<close> and the
  filter's \<open>n/a\<close> both give an invalid date; \<open>toDateString\<close> renders both as
  \<open>Invalid Date\<close>, the two strings are equal, and the row passes the filter and stays in
  the result. The same holds of a row that has no such field. (When exactly one of the two
  is not a date the row is excluded, and two dates pass exactly when they fall on the same
  local day: a time of day makes no difference.)
\<close>

theorem date_filter_passes_unparsable:
  "newDate sample_host (VStr ''soon'') = None
   \<and> newDate sample_host (VStr ''n/a'') = None
   \<and> filterPredicate sample_host joined_filter (VStr ''soon'') ''n/a''
   \<and> apply_filter sample_host [joined_filter]
        [joined_row ''1'' (VStr ''soon''), joined_row ''2'' (VStr ''2024-01-15''),
         \<lparr>item_id = ''3'', item_fields = []\<rparr>]
        (''joined'', ''n/a'')
       = [joined_row ''1'' (VStr ''soon''), \<lparr>item_id = ''3'', item_fields = []\<rparr>]
   \<and> apply_filter sample_host [joined_filter]
        [joined_row ''1'' (VStr ''soon''), joined_row ''2'' (VStr ''2024-01-15T10:30:00Z''),
         joined_row ''4'' (VStr ''2024-01-16'')]
        (''joined'', ''2024-01-15'')
       = [joined_row ''2'' (VStr ''2024-01-15T10:30:00Z'')]"
  by code_simp

end
